theory Spec2Isabelle
  imports Complex_Main
begin

section \<open>JavaScript numbers and values\<close>

text \<open>
  A JavaScript number is a double. It is modelled by the rational it stands for, and the
  non-finite results of a division by zero are written out where the source divides:
  \<open>xnumber\<close> adds the two infinities and NaN. Signed zero is not distinguished.

  A quotient and a product are rounded to the nearest double, ties to even
  (\<open>toDouble\<close>, for a significand of 53 bits; the exponent range is not modelled, so
  nothing overflows or becomes subnormal). Sums and differences are not rounded: they are
  exact in doubles for the integers below \<open>2^53\<close>, which is what offsets and lengths
  are.
\<close>

type_synonym number = rat

datatype xnumber = Fin number | PInf | NInf | NaN

function bitLength :: "int \<Rightarrow> nat" where
  "bitLength n = (if n \<le> 0 then 0 else Suc (bitLength (n div 2)))"
  by pat_completeness auto

termination
  by (relation "measure nat") auto

declare bitLength.simps [simp del]

definition pow2 :: "int \<Rightarrow> rat" where
  "pow2 e = (if 0 \<le> e then 2 ^ nat e else 1 / 2 ^ nat (- e))"

text \<open>For a positive \<open>x\<close>, the exponent \<open>k\<close> with \<open>2^k \<le> x < 2^(k + 1)\<close>.\<close>

definition binade :: "rat \<Rightarrow> int" where
  "binade x =
     (let (n, d) = quotient_of x;
          k = int (bitLength n) - int (bitLength d)
      in if pow2 k \<le> x then k else k - 1)"

definition roundHalfEven :: "rat \<Rightarrow> int" where
  "roundHalfEven y =
     (let f = \<lfloor>y\<rfloor>; r = y - of_int f
      in if r < 1 / 2 then f else if 1 / 2 < r then f + 1
         else if even f then f else f + 1)"

definition toDouble :: "rat \<Rightarrow> rat" where
  "toDouble x =
     (if x = 0 then 0
      else (let e = binade \<bar>x\<bar> - 52
            in sgn x * of_int (roundHalfEven (\<bar>x\<bar> / pow2 e)) * pow2 e))"

definition js_div :: "number \<Rightarrow> number \<Rightarrow> xnumber" where
  "js_div a b =
     (if b \<noteq> 0 then Fin (toDouble (a / b))
      else if a > 0 then PInf else if a < 0 then NInf else NaN)"

fun xsign :: "xnumber \<Rightarrow> int option" where
  "xsign (Fin a) = Some (if a > 0 then 1 else if a < 0 then - 1 else 0)"
| "xsign PInf = Some 1"
| "xsign NInf = Some (- 1)"
| "xsign NaN = None"

fun js_mul :: "xnumber \<Rightarrow> xnumber \<Rightarrow> xnumber" where
  "js_mul (Fin a) (Fin b) = Fin (toDouble (a * b))"
| "js_mul a b =
     (case (xsign a, xsign b) of
        (Some s, Some t) \<Rightarrow> if s * t > 0 then PInf else if s * t < 0 then NInf else NaN
      | _ \<Rightarrow> NaN)"

fun js_floor :: "xnumber \<Rightarrow> xnumber" where
  "js_floor (Fin a) = Fin (of_int \<lfloor>a\<rfloor>)"
| "js_floor x = x"

text \<open>\<open>a > b\<close> and \<open>b < a\<close> for a finite \<open>a\<close>: every comparison with NaN is false.\<close>

fun js_gt :: "number \<Rightarrow> xnumber \<Rightarrow> bool" where
  "js_gt a (Fin b) = (a > b)"
| "js_gt a PInf = False"
| "js_gt a NInf = True"
| "js_gt a NaN = False"

fun js_lt :: "xnumber \<Rightarrow> number \<Rightarrow> bool" where
  "js_lt (Fin b) a = (b < a)"
| "js_lt PInf a = False"
| "js_lt NInf a = True"
| "js_lt NaN a = False"

text \<open>
  Strings are lists of code units. \<open>charCodeAt\<close> outside the string is NaN (here
  \<open>None\<close>), \<open>charAt\<close> outside the string is the empty string, and \<open>substring\<close>
  truncates its arguments, clamps them to the string and swaps them when they are out
  of order.
\<close>

definition charCodeAt :: "string \<Rightarrow> nat \<Rightarrow> nat option" where
  "charCodeAt s i = (if i < length s then Some (of_char (s ! i)) else None)"

definition charAt :: "string \<Rightarrow> nat \<Rightarrow> string" where
  "charAt s i = (if i < length s then [s ! i] else [])"

definition toIndex :: "string \<Rightarrow> number \<Rightarrow> nat" where
  "toIndex s x = min (nat \<lfloor>x\<rfloor>) (length s)"

definition substring :: "string \<Rightarrow> number \<Rightarrow> number \<Rightarrow> string" where
  "substring s a b =
     (let lo = min (toIndex s a) (toIndex s b); hi = max (toIndex s a) (toIndex s b)
      in take (hi - lo) (drop lo s))"

definition substringFrom :: "string \<Rightarrow> number \<Rightarrow> string" where
  "substringFrom s a = substring s a (of_nat (length s))"

text \<open>The two members of the enum CharacterCodes that the layout reads.\<close>

definition space :: nat where
  "space = 32"


datatype jsvalue = JSUndefined | JSNumber number | JSString string | JSObject nat

datatype error = TypeError

section \<open>Historian.getCommits\<close>

text \<open>
  A promise is modelled by its outcome. The REST wrapper is not part of the sources: its
  \<open>get\<close> is a parameter, a function from the path and the query string to the outcome
  of the request.
\<close>

datatype 'a promise = Pending | Resolved 'a | Rejected jsvalue

datatype queryValue = QNumber number | QBoolean bool | QString string

type_synonym queryString = "(string \<times> queryValue) list"

record Historian =
  endpoint :: string
  historianApi :: bool
  disableCache :: bool

text \<open>
  \<open>generateCacheQueryString\<close>: the result is \<open>undefined\<close> when the cache is not
  disabled, and spreading \<open>undefined\<close> into an object adds no key. \<open>now\<close> is the
  value of \<open>Date.now()\<close>.
\<close>

definition generateCacheQueryString :: "Historian \<Rightarrow> number \<Rightarrow> queryString" where
  "generateCacheQueryString h now =
     (if disableCache h \<and> historianApi h then [(''disableCache'', QBoolean (disableCache h))]
      else if disableCache h then [(''cacheBust'', QNumber now)]
      else [])"

text \<open>
  \<open>getCommits\<close>: the request's promise with the \<open>catch\<close> handler
  \<open>error === 400 ? [] : Promise.reject(error)\<close> attached.
\<close>

definition getCommits ::
  "Historian \<Rightarrow> (string \<Rightarrow> queryString \<Rightarrow> 'c list promise) \<Rightarrow> number \<Rightarrow> string \<Rightarrow> number
     \<Rightarrow> 'c list promise" where
  "getCommits h restGet now sha count =
     (let queryString = [(''count'', QNumber count), (''sha'', QString sha)]
            @ generateCacheQueryString h now
      in case restGet ''/commits'' queryString of
           Rejected e \<Rightarrow> if e = JSNumber 400 then Resolved [] else Rejected e
         | r \<Rightarrow> r)"

section \<open>Word-boundary trimming\<close>

text \<open>
  The loop of \<open>renderFirstSegment\<close> that moves the top-of-viewport offset back:
  \<open>while ((offset >= 1) && (text.charCodeAt(offset - 1) !== CharacterCodes.space)) offset--\<close>.
\<close>

fun trimTopOffset :: "string \<Rightarrow> nat \<Rightarrow> nat" where
  "trimTopOffset txt 0 = 0"
| "trimTopOffset txt (Suc n) =
     (if charCodeAt txt n \<noteq> Some space then trimTopOffset txt n else Suc n)"

text \<open>
  The loop of the pruning step that moves the clip offset back:
  \<open>while ((segClip > 0) && (text.charCodeAt(segClip) !== CharacterCodes.space) &&
  (text.charAt(segClip) !== "\n")) segClip--\<close>.
\<close>

fun trimSegClip :: "string \<Rightarrow> nat \<Rightarrow> nat" where
  "trimSegClip txt 0 = 0"
| "trimSegClip txt (Suc n) =
     (if charCodeAt txt (Suc n) \<noteq> Some space \<and> charAt txt (Suc n) \<noteq> [CHR 0x0A]
      then trimSegClip txt n else Suc n)"

section \<open>The sequence\<close>

text \<open>
  Modelled from the spec: the merge tree behind \<open>client\<close> (its \<open>getLength\<close>,
  \<open>mapRange\<close> and \<open>getOffset\<close>) is not part of the sources. The spec gives the
  contract the view consumes: the sequence is an ordered collection of segments,
  \<open>length()\<close> is the number of its characters, and \<open>traverse\<close> calls a visitor for
  each segment from an offset forward, in order, until the visitor returns false. The
  visitor of the source, \<open>renderSegment\<close>, takes the segment, its start offset, and the
  bounds \<open>start\<close> and \<open>end\<close> of the traversed range relative to that start offset.
  A segment has an identity (\<open>segId\<close>): the source compares segments by reference.
\<close>

record TextSegment =
  segId :: nat
  segText :: string

datatype Segment = TextSeg TextSegment | MarkerSeg nat nat

fun cachedLength :: "Segment \<Rightarrow> nat" where
  "cachedLength (TextSeg t) = length (segText t)"
| "cachedLength (MarkerSeg i n) = n"

record Client =
  segments :: "Segment list"
  longClientId :: string

definition getLength :: "Client \<Rightarrow> nat" where
  "getLength c = sum_list (map cachedLength (segments c))"

fun getOffset :: "Segment list \<Rightarrow> TextSegment \<Rightarrow> nat" where
  "getOffset [] t = 0"
| "getOffset (TextSeg u # ss) t =
     (if segId u = segId t then 0 else length (segText u) + getOffset ss t)"
| "getOffset (MarkerSeg i n # ss) t = n + getOffset ss t"

fun nodeMap ::
  "(Segment \<Rightarrow> number \<Rightarrow> number \<Rightarrow> number \<Rightarrow> 's \<Rightarrow> error + (bool \<times> 's))
     \<Rightarrow> Segment list \<Rightarrow> number \<Rightarrow> number \<Rightarrow> number \<Rightarrow> 's \<Rightarrow> error + 's" where
  "nodeMap leaf [] segStart start end s = Inr s"
| "nodeMap leaf (child # rest) segStart start end s =
     (let len = of_nat (cachedLength child) in
      if end > 0 \<and> len > 0 \<and> start < len then
        (case leaf child segStart start end s of
           Inl e \<Rightarrow> Inl e
         | Inr (go, s') \<Rightarrow>
             if go then nodeMap leaf rest (segStart + len) (start - len) (end - len) s'
             else Inr s')
      else nodeMap leaf rest (segStart + len) (start - len) (end - len) s)"

text \<open>
  \<open>mapRange\<close> from the offset \<open>start\<close> to the end of the sequence. A start that is
  not a finite number visits no segment.
\<close>

definition mapRange ::
  "(Segment \<Rightarrow> number \<Rightarrow> number \<Rightarrow> number \<Rightarrow> 's \<Rightarrow> error + (bool \<times> 's))
     \<Rightarrow> Client \<Rightarrow> xnumber \<Rightarrow> 's \<Rightarrow> error + 's" where
  "mapRange leaf c start s =
     (case start of
        Fin p \<Rightarrow> nodeMap leaf (segments c) 0 p (of_nat (getLength c)) s
      | _ \<Rightarrow> Inr s)"

section \<open>The rendered page and the view\<close>

text \<open>
  A span of the page (\<open>ISegSpan\<close>): the text given to it
  (\<open>span.innerText = segText\<close>), the segment it renders, and the optional numbers the
  source stores on the element. \<open>hostsCursor\<close> says that the cursor's marker element
  (\<open>editSpan\<close>, with a text of its own) is a child of the span. No statement of the
  source assigns \<open>clipOffset\<close>.
\<close>

record ISegSpan =
  innerText :: string
  seg :: TextSegment
  segPos :: number
  offset :: "number option"
  clipOffset :: "number option"
  hostsCursor :: bool

type_synonym DOM = "ISegSpan list list"

record ClientRect =
  left :: number
  top :: number
  right :: number
  bottom :: number

definition width :: "ClientRect \<Rightarrow> number" where
  "width r = right r - left r"

definition height :: "ClientRect \<Rightarrow> number" where
  "height r = bottom r - top r"

text \<open>
  The result of \<open>pointerToElementOffsetWebkit\<close>, as far as \<open>elmOffToSegOff\<close> reads it
  for a span: whether the hit element is that span, the previous siblings of the hit node
  and of the hit element (nearest first), and the offset in the hit node. A sibling is
  given by its node type, with the length of its \<open>innerText\<close> for an element and of
  its \<open>nodeValue\<close> for a text node.
\<close>

datatype DomNode = ELEMENT_NODE nat | TEXT_NODE nat | OTHER_NODE

record IRangeInfo =
  elmIsSpan :: bool
  nodePreviousSiblings :: "DomNode list"
  elmPreviousSiblings :: "DomNode list"
  rangeOffset :: nat

fun nodeLength :: "DomNode \<Rightarrow> nat" where
  "nodeLength (ELEMENT_NODE n) = n"
| "nodeLength (TEXT_NODE n) = n"
| "nodeLength OTHER_NODE = 0"

definition elmOffToSegOff :: "IRangeInfo \<Rightarrow> nat" where
  "elmOffToSegOff elmOff =
     (let prevSibs =
        (if nodePreviousSiblings elmOff = [] \<and> \<not> elmIsSpan elmOff
         then elmPreviousSiblings elmOff else nodePreviousSiblings elmOff)
      in rangeOffset elmOff + sum_list (map nodeLength prevSibs))"

text \<open>
  The layout of the host (the Geometry Adapter of the spec) is a parameter. Every query
  gets the children of the viewport element at the time of the call: the inner elements
  in order, each with its spans. An inner element is named by its index, a span by the
  index of its inner element and its own. \<open>caretRangeFromPoint\<close> answers for the span
  that \<open>elmOffToSegOff\<close> is then called with. \<open>innerTextLength\<close> is the length of
  the \<open>innerText\<close> that the page gives for a span when \<open>findLastChar\<close> reads it.
\<close>

record Geometry =
  divBounds :: ClientRect
  lineBounds :: "DOM \<Rightarrow> nat \<Rightarrow> ClientRect"
  spanBounds :: "DOM \<Rightarrow> nat \<Rightarrow> nat \<Rightarrow> ClientRect"
  spanClientRects :: "DOM \<Rightarrow> nat \<Rightarrow> nat \<Rightarrow> ClientRect list"
  caretRangeFromPoint :: "DOM \<Rightarrow> nat \<Rightarrow> nat \<Rightarrow> number \<Rightarrow> number \<Rightarrow> IRangeInfo option"
  innerTextLength :: "ISegSpan \<Rightarrow> nat"

record Cursor =
  pos :: number
  parentSpan :: "ISegSpan option"

text \<open>
  The operation of a sequenced message, by its \<open>type\<close>: an insertion carries
  \<open>pos1\<close> and \<open>text\<close>, a removal \<open>pos1\<close> and \<open>pos2\<close>.
\<close>

datatype IMergeTreeOp = INSERT number string | REMOVE number number | OTHER

record ISequencedMessage =
  clientId :: string
  op :: "IMergeTreeOp option"

text \<open>
  The callbacks the view passes to \<open>window.requestAnimationFrame\<close>: the one of
  \<open>localQueueRender\<close>, and the one of \<open>queueRender\<close>, which closes over the message.
\<close>

datatype FrameCallback = LocalRender | RemoteRender ISequencedMessage

text \<open>
  The fields of \<open>FlowView\<close> that rendering and scheduling read or write.
  \<open>viewportDiv\<close> is the page: the children of the viewport element.
  \<open>animationFrames\<close> holds the callbacks requested and not yet run. \<open>hEst\<close> is
  initialised to 22 and never assigned.
\<close>

record FlowView =
  wEst :: number
  viewportCharCount :: number
  charsPerLine :: number
  prevTopSegment :: "nat option"
  adjustedTopChar :: "number option"
  viewportEndChar :: xnumber
  viewportDiv :: DOM
  client :: Client
  topChar :: number
  cursor :: Cursor
  pendingRender :: bool
  animationFrames :: "FrameCallback list"

definition hEst :: number where
  "hEst = 22"

section \<open>renderTree\<close>

text \<open>
  The variables of one call of \<open>renderTree\<close>. The inner elements it creates are
  numbered in the order of their creation; \<open>divs\<close> gives the spans of each, attached
  to the viewport element or not, and \<open>children\<close> lists the attached ones in order.
  \<open>firstDiv\<close> is the first inner element.
\<close>

record RenderPass =
  children :: "nat list"
  divs :: "nat \<Rightarrow> ISegSpan list"
  nextDiv :: nat
  splitTopSeg :: bool
  innerDiv :: nat
  charLength :: nat
  firstSeg :: bool
  cursorRendered :: bool
  view :: FlowView

definition firstDiv :: nat where
  "firstDiv = 0"

definition dom :: "RenderPass \<Rightarrow> DOM" where
  "dom rp = map (divs rp) (children rp)"

fun indexOf :: "nat list \<Rightarrow> nat \<Rightarrow> nat" where
  "indexOf [] d = 0"
| "indexOf (c # cs) d = (if c = d then 0 else Suc (indexOf cs d))"

definition freshDiv :: "RenderPass \<Rightarrow> RenderPass" where
  "freshDiv rp =
     rp\<lparr>children := children rp @ [nextDiv rp],
        divs := (divs rp)(nextDiv rp := []),
        innerDiv := nextDiv rp,
        nextDiv := Suc (nextDiv rp)\<rparr>"

definition makeSegSpan :: "string \<Rightarrow> TextSegment \<Rightarrow> number \<Rightarrow> number \<Rightarrow> ISegSpan" where
  "makeSegSpan segText' textSegment offset' startChar =
     \<lparr>innerText = segText', seg = textSegment, segPos = startChar,
      offset = (if offset' > 0 then Some offset' else None),
      clipOffset = None, hostsCursor = False\<rparr>"

definition appendChild :: "nat \<Rightarrow> ISegSpan \<Rightarrow> RenderPass \<Rightarrow> RenderPass" where
  "appendChild d sp rp = rp\<lparr>divs := (divs rp)(d := divs rp d @ [sp])\<rparr>"

text \<open>
  \<open>Cursor.assign\<close> for the span at index \<open>j\<close> of the inner element \<open>d\<close>: the marker
  leaves its parent and becomes a child of that span. The blink timer is not modelled.
\<close>

definition assign :: "nat \<Rightarrow> nat \<Rightarrow> RenderPass \<Rightarrow> RenderPass" where
  "assign d j rp =
     (let cleared = (\<lambda>i. map (\<lambda>sp. sp\<lparr>hostsCursor := False\<rparr>) (divs rp i));
          host = (cleared d ! j)\<lparr>hostsCursor := True\<rparr>
      in rp\<lparr>divs := cleared(d := (cleared d)[j := host]),
            view := (view rp)\<lparr>cursor := (cursor (view rp))\<lparr>parentSpan := Some host\<rparr>\<rparr>\<rparr>)"

definition segmentToSpan ::
  "string \<Rightarrow> TextSegment \<Rightarrow> number \<Rightarrow> number \<Rightarrow> bool \<Rightarrow> RenderPass \<Rightarrow> RenderPass" where
  "segmentToSpan segText' textSegment offset' startChar renderCursor rp =
     (let startPos = startChar + offset';
          endPos = startPos + of_nat (length segText');
          cpos = pos (cursor (view rp))
      in if renderCursor \<and> cpos \<ge> startPos \<and> cpos < endPos then
           (let cursorRelPos = cpos - startPos;
                relSpan = makeSegSpan (substringFrom segText' cursorRelPos) textSegment
                            (cursorRelPos + offset') startChar;
                rp1 = (if cursorRelPos > 0
                       then appendChild (innerDiv rp)
                              (makeSegSpan (substring segText' 0 cursorRelPos) textSegment
                                 offset' startChar) rp
                       else rp);
                rp2 = appendChild (innerDiv rp1) relSpan (rp1\<lparr>cursorRendered := True\<rparr>)
            in assign (innerDiv rp2) (length (divs rp2 (innerDiv rp2)) - 1) rp2)
         else appendChild (innerDiv rp) (makeSegSpan segText' textSegment offset' startChar) rp)"

text \<open>
  The \<open>do ... while (offset < start)\<close> loop of \<open>renderFirstSegment\<close>, from the point
  \<open>(x, y)\<close> with the current \<open>offset\<close>; the result is \<open>prevOffset\<close> when the loop is
  left. \<open>i\<close> is the index of the inner element, whose first span is probed.
\<close>

function probeLoop ::
  "Geometry \<Rightarrow> DOM \<Rightarrow> nat \<Rightarrow> ClientRect \<Rightarrow> number \<Rightarrow> number \<Rightarrow> number \<Rightarrow> nat \<Rightarrow> nat" where
  "probeLoop g d i innerBounds start x y offset' =
     (if y > bottom innerBounds then offset'
      else (case caretRangeFromPoint g d i 0 x y of
              None \<Rightarrow> offset'
            | Some elmOff \<Rightarrow>
                if of_nat (elmOffToSegOff elmOff) < start
                then probeLoop g d i innerBounds start x (y + hEst) (elmOffToSegOff elmOff)
                else offset'))"
  by pat_completeness auto
termination
proof (relation "measure (\<lambda>(g, d, i, innerBounds, start, x, y, offset').
        nat (\<lceil>bottom innerBounds - y\<rceil> + 22))", goal_cases)
  case 1
  show ?case by simp
next
  case (2 g d i innerBounds start x y offset' elmOff)
  have "bottom innerBounds - (y + 22) = (bottom innerBounds - y) - of_int 22"
    by simp
  then have step: "\<lceil>bottom innerBounds - (y + 22)\<rceil> = \<lceil>bottom innerBounds - y\<rceil> - 22"
    by (simp only: ceiling_diff_of_int)
  from 2 have "- 1 < bottom innerBounds - y"
    by simp
  then have "0 \<le> \<lceil>bottom innerBounds - y\<rceil>"
    by (simp only: zero_le_ceiling)
  then have positive: "0 < \<lceil>bottom innerBounds - y\<rceil> + 22"
    by linarith
  have smaller: "\<lceil>bottom innerBounds - (y + 22)\<rceil> < \<lceil>bottom innerBounds - y\<rceil>"
    using step by linarith
  show ?case
    using positive smaller by (simp add: hEst_def)
qed

declare probeLoop.simps [simp del]

text \<open>
  \<open>renderFirstSegment\<close> in two parts. \<open>prevOffset\<close> is the value of that variable
  when the \<open>do ... while\<close> loop is left, on the pass that holds the probe span.
  \<open>renderFirstSegment\<close> appends the probe span and removes it again; the result is the
  text from the trimmed offset on, and that offset (the source's \<open>segOffset\<close>).
\<close>

definition prevOffset :: "Geometry \<Rightarrow> number \<Rightarrow> RenderPass \<Rightarrow> nat" where
  "prevOffset g start rp1 =
     (let i = indexOf (children rp1) (innerDiv rp1);
          innerBounds = lineBounds g (dom rp1) i;
          x = left innerBounds + of_int \<lfloor>wEst (view rp1) / 2\<rfloor>;
          y = top innerBounds + of_int \<lfloor>hEst / 2\<rfloor>
      in probeLoop g (dom rp1) i innerBounds start x y 0)"

definition renderFirstSegment ::
  "Geometry \<Rightarrow> string \<Rightarrow> TextSegment \<Rightarrow> number \<Rightarrow> number \<Rightarrow> RenderPass
     \<Rightarrow> string \<times> nat \<times> RenderPass" where
  "renderFirstSegment g txt textSegment segPos' start rp =
     (let rp1 = segmentToSpan txt textSegment 0 segPos' False rp;
          rp2 = rp1\<lparr>divs := (divs rp1)(innerDiv rp1 := tl (divs rp1 (innerDiv rp1)))\<rparr>;
          offset' = trimTopOffset txt (prevOffset g start rp1)
      in (substringFrom txt (of_nat offset'), offset', rp2))"

text \<open>
  The \<open>while (pruneDiv)\<close> loop: \<open>pruneDiv\<close> is the child of the viewport element at
  index \<open>k\<close> when the first argument is \<open>Suc k\<close>, and null when it is 0. The result
  carries \<open>lastPruned\<close>.
\<close>

fun pruneLoop ::
  "Geometry \<Rightarrow> number \<Rightarrow> nat \<Rightarrow> RenderPass \<Rightarrow> nat option \<Rightarrow> RenderPass \<times> nat option" where
  "pruneLoop g constraint 0 rp lastPruned = (rp, lastPruned)"
| "pruneLoop g constraint (Suc k) rp lastPruned =
     (if bottom (lineBounds g (dom rp) k) > constraint
      then pruneLoop g constraint k
             (rp\<lparr>children := take k (children rp) @ drop (Suc k) (children rp)\<rparr>)
             (Some (children rp ! k))
      else (rp, lastPruned))"

text \<open>
  The search \<open>for (j = rects.length - 1; j >= 0; j--)\<close> for the last rectangle that
  ends above the constraint, on the reversed list; the result is the point \<open>(x, y)\<close>.
\<close>

fun findRect :: "ClientRect list \<Rightarrow> number \<Rightarrow> number \<Rightarrow> number \<times> number" where
  "findRect [] constraint w = (0, 0)"
| "findRect (rect # rects) constraint w =
     (if bottom rect \<le> constraint
      then (right rect - of_int \<lfloor>w / 2\<rfloor>, bottom rect - of_int \<lfloor>hEst / 2\<rfloor>)
      else findRect rects constraint w)"

text \<open>
  The clipping of the span \<open>prunedSpan\<close>, at index \<open>i\<close> of the child \<open>li\<close> of the
  viewport element, that crosses the constraint: from \<open>let rects = prunedSpan.getClientRects()\<close>
  to the assignment of \<open>lastSeg\<close>. The result carries \<open>lastSeg\<close> and \<open>lastSegOff\<close>.
  A missed hit test makes \<open>elmOffToSegOff\<close> read a property of \<open>undefined\<close>.
\<close>

definition clipSpan ::
  "Geometry \<Rightarrow> number \<Rightarrow> number \<Rightarrow> ISegSpan \<Rightarrow> nat \<Rightarrow> nat \<Rightarrow> RenderPass
     \<Rightarrow> TextSegment option \<Rightarrow> nat \<Rightarrow> error + (RenderPass \<times> TextSegment option \<times> nat)" where
  "clipSpan g constraint w prunedSpan li i rp lastSeg lastSegOff =
     (let (x, y) = findRect (rev (spanClientRects g (dom rp) li i)) constraint w
      in if y > 0 then
           (case caretRangeFromPoint g (dom rp) li i x y of
              None \<Rightarrow> Inl TypeError
            | Some elmOff \<Rightarrow>
                (let textSeg = seg prunedSpan;
                     segClip = trimSegClip (segText textSeg) (elmOffToSegOff elmOff + 1);
                     rp1 = (if segClip > 0
                            then segmentToSpan
                                   (substring (segText textSeg) 0 (of_nat segClip))
                                   textSeg 0 (segPos prunedSpan) True rp
                            else rp)
                 in Inr (rp1, Some textSeg, segClip)))
         else Inr (rp, lastSeg, lastSegOff))"

text \<open>
  The loop \<open>for (i = 0; i < lastPruned.childElementCount; i++)\<close>. Appending a span
  to \<open>innerDiv\<close> takes it out of \<open>lastPruned\<close>, whose collection of children is
  live: the spans after it move down by one index. The result carries
  \<open>lastSeg\<close> and \<open>lastSegOff\<close>.
\<close>

function reinsertLoop ::
  "Geometry \<Rightarrow> number \<Rightarrow> number \<Rightarrow> nat \<Rightarrow> nat \<Rightarrow> RenderPass \<Rightarrow> TextSegment option \<Rightarrow> nat
     \<Rightarrow> error + (RenderPass \<times> TextSegment option \<times> nat)" where
  "reinsertLoop g constraint w lastPruned i rp lastSeg lastSegOff =
     (if i < length (divs rp lastPruned) then
        (let prunedSpan = divs rp lastPruned ! i;
             li = indexOf (children rp) lastPruned;
             spanBounds' = spanBounds g (dom rp) li i
         in if bottom spanBounds' \<le> constraint then
              reinsertLoop g constraint w lastPruned (Suc i)
                (appendChild (innerDiv rp) prunedSpan
                   (rp\<lparr>divs := (divs rp)
                         (lastPruned :=
                            take i (divs rp lastPruned) @ drop (Suc i) (divs rp lastPruned))\<rparr>))
                (Some (seg prunedSpan)) (length (segText (seg prunedSpan)))
            else if constraint - top spanBounds' > hEst then
              clipSpan g constraint w prunedSpan li i rp lastSeg lastSegOff
            else Inr (rp, lastSeg, lastSegOff))
      else Inr (rp, lastSeg, lastSegOff))"
  by pat_completeness auto
termination
  by (relation "measure (\<lambda>(g, constraint, w, lastPruned, i, rp, lastSeg, lastSegOff).
        length (divs rp lastPruned) - i)")
     (auto simp: appendChild_def)

declare reinsertLoop.simps [simp del]

text \<open>
  The pruning step of \<open>renderSegment\<close>, from \<open>if (innerDiv.childNodes.length > 0)\<close>
  on. The result carries the value \<open>renderSegment\<close> returns.
\<close>

definition prune :: "Geometry \<Rightarrow> number \<Rightarrow> number \<Rightarrow> RenderPass \<Rightarrow> error + (bool \<times> RenderPass)" where
  "prune g constraint w rp =
     (let rp1 = (if length (divs rp (innerDiv rp)) > 0 then freshDiv rp else rp);
          k = indexOf (children rp1) (innerDiv rp1)
      in if k > 0 then
           (case pruneLoop g constraint k rp1 None of
              (rp2, None) \<Rightarrow> Inr (False, rp2)
            | (rp2, Some lastPruned) \<Rightarrow>
                (case reinsertLoop g constraint w lastPruned 0
                        (rp2\<lparr>children := children rp2 @ [lastPruned]\<rparr>) None 0 of
                   Inl e \<Rightarrow> Inl e
                 | Inr (rp4, lastSeg, lastSegOff) \<Rightarrow>
                     (let rp5 = rp4\<lparr>children := remove1 lastPruned (children rp4)\<rparr>
                      in case lastSeg of
                           None \<Rightarrow> Inr (False, rp5)
                         | Some ls \<Rightarrow>
                             Inr (False, rp5\<lparr>view := (view rp5)
                               \<lparr>viewportEndChar :=
                                  Fin (of_nat (getOffset (segments (client (view rp5))) ls
                                         + lastSegOff))\<rparr>\<rparr>))))
         else Inr (True, rp1))"

definition charsPerViewport :: "Geometry \<Rightarrow> FlowView \<Rightarrow> xnumber" where
  "charsPerViewport g v =
     (let w = of_int \<lfloor>wEst v\<rfloor>;
          charsPerLine' = js_div (width (divBounds g)) w
      in js_floor (js_mul (js_div (height (divBounds g)) hEst) charsPerLine'))"

definition setAdjustedTopChar :: "number \<Rightarrow> RenderPass \<Rightarrow> RenderPass" where
  "setAdjustedTopChar a rp = rp\<lparr>view := (view rp)\<lparr>adjustedTopChar := Some a\<rparr>\<rparr>"

definition setCursorPos :: "number \<Rightarrow> FlowView \<Rightarrow> FlowView" where
  "setCursorPos c v = v\<lparr>cursor := (cursor v)\<lparr>pos := c\<rparr>\<rparr>"

text \<open>
  The part of \<open>renderSegment\<close> for \<open>start > 0\<close>: the text to render, the offset of
  the first span in the segment, and the pass with \<open>adjustedTopChar\<close> set and the
  cursor moved up to it.
\<close>

definition topSegment ::
  "Geometry \<Rightarrow> TextSegment \<Rightarrow> number \<Rightarrow> number \<Rightarrow> RenderPass \<Rightarrow> string \<times> nat \<times> RenderPass" where
  "topSegment g textSegment segPos' start rp =
     (let (segText', segOffset, rp1) =
            (if splitTopSeg rp
             then renderFirstSegment g (segText textSegment) textSegment segPos' start rp
             else (segText textSegment, 0, rp));
          actualStart = of_nat (length (segText textSegment)) - of_nat (length segText');
          a = (if splitTopSeg rp then topChar (view rp1) + (actualStart - start)
               else topChar (view rp1) - start);
          rp2 = setAdjustedTopChar a rp1
      in (segText', segOffset,
          if pos (cursor (view rp2)) < a then rp2\<lparr>view := setCursorPos a (view rp2)\<rparr> else rp2))"

text \<open>
  \<open>renderSegment\<close> for a text segment, in two parts: up to the new inner element after
  a text that ends in a line feed, and from \<open>if ((charLength > charsPerViewport) || last)\<close>
  on.
\<close>

definition placeText ::
  "Geometry \<Rightarrow> TextSegment \<Rightarrow> number \<Rightarrow> number \<Rightarrow> RenderPass \<Rightarrow> RenderPass" where
  "placeText g textSegment segPos' start rp =
     (let rp1 = (if firstSeg rp \<and> prevTopSegment (view rp) \<noteq> Some (segId textSegment)
                 then rp\<lparr>splitTopSeg := False,
                         view := (view rp)\<lparr>prevTopSegment := Some (segId textSegment)\<rparr>\<rparr>
                 else rp);
          (segText', segOffset, rp2) =
            (if start > 0 then topSegment g textSegment segPos' start rp1
             else (segText textSegment, 0,
                   if firstSeg rp1
                   then setAdjustedTopChar (topChar (view rp1)) rp1 else rp1));
          rp3 = rp2\<lparr>firstSeg := False, charLength := charLength rp2 + length segText'\<rparr>;
          rp4 = segmentToSpan segText' textSegment (of_nat segOffset) segPos' True rp3
      in if charAt segText' (length segText' - 1) = [CHR 0x0A] \<and> segText' \<noteq> []
         then freshDiv rp4 else rp4)"

definition overflowCheck :: "Geometry \<Rightarrow> bool \<Rightarrow> RenderPass \<Rightarrow> error + (bool \<times> RenderPass)" where
  "overflowCheck g isLast rp =
     (if js_gt (of_nat (charLength rp)) (charsPerViewport g (view rp)) \<or> isLast then
        (let constraint = height (divBounds g) + top (divBounds g);
             lastInnerBounds = lineBounds g (dom rp) (indexOf (children rp) (innerDiv rp))
         in if bottom lastInnerBounds > constraint \<or> isLast
            then prune g constraint (of_int \<lfloor>wEst (view rp)\<rfloor>) rp
            else Inr (True, rp))
      else Inr (True, rp))"

definition renderSegment ::
  "Geometry \<Rightarrow> Segment \<Rightarrow> number \<Rightarrow> number \<Rightarrow> number \<Rightarrow> RenderPass
     \<Rightarrow> error + (bool \<times> RenderPass)" where
  "renderSegment g segment segPos' start end rp =
     (case segment of
        MarkerSeg i n \<Rightarrow> Inr (True, rp)
      | TextSeg textSegment \<Rightarrow>
          overflowCheck g (of_nat (length (segText textSegment)) = end)
            (placeText g textSegment segPos' start rp))"

text \<open>\<open>findLastChar\<close>; \<open>if (lastSpan.clipOffset)\<close> holds for a number other than 0.\<close>

definition findLastChar :: "Geometry \<Rightarrow> RenderPass \<Rightarrow> number" where
  "findLastChar g rp =
     (let cs = children rp in
      if length cs > 0 then
        (let child = (if length (divs rp (last cs)) = 0
                      then (if length cs \<ge> 2 then Some (cs ! (length cs - 2)) else None)
                      else Some (last cs))
         in case child of
              None \<Rightarrow> - 1
            | Some c \<Rightarrow>
                (if divs rp c = [] then - 1
                 else (let lastSpan = last (divs rp c) in
                       case clipOffset lastSpan of
                         Some co \<Rightarrow>
                           if co \<noteq> 0 then co
                           else segPos lastSpan + of_nat (innerTextLength g lastSpan) - 1
                       | None \<Rightarrow> segPos lastSpan + of_nat (innerTextLength g lastSpan) - 1)))
      else - 1)"

text \<open>
  The end of \<open>renderTree\<close>: the fallback for \<open>viewportEndChar\<close>, where
  \<open>charLength + context.adjustedTopChar\<close> is NaN while \<open>adjustedTopChar\<close> is
  undefined, and the placement of the cursor.
\<close>

definition endCharFallback :: "Geometry \<Rightarrow> RenderPass \<Rightarrow> RenderPass" where
  "endCharFallback g rp =
     (if js_lt (viewportEndChar (view rp)) 0 then
        (let endChar = findLastChar g rp in
         if endChar < 0 then
           rp\<lparr>view := (view rp)\<lparr>viewportEndChar :=
               (case adjustedTopChar (view rp) of
                  Some a \<Rightarrow> Fin (of_nat (charLength rp) + a)
                | None \<Rightarrow> NaN)\<rparr>\<rparr>
         else rp\<lparr>view := (view rp)\<lparr>viewportEndChar := Fin endChar\<rparr>\<rparr>)
      else rp)"

definition placeCursor :: "RenderPass \<Rightarrow> RenderPass" where
  "placeCursor rp =
     (if \<not> cursorRendered rp \<or> js_gt (pos (cursor (view rp))) (viewportEndChar (view rp)) then
        (case divs rp firstDiv of
           [] \<Rightarrow> rp
         | firstSpan # spans \<Rightarrow>
             (let curpos = (case offset firstSpan of
                              Some off \<Rightarrow> if off \<noteq> 0 then segPos firstSpan + off
                                          else segPos firstSpan
                            | None \<Rightarrow> segPos firstSpan)
              in assign firstDiv 0 (rp\<lparr>view := setCursorPos curpos (view rp)\<rparr>)))
      else rp)"

definition initialPass :: "FlowView \<Rightarrow> RenderPass" where
  "initialPass v =
     \<lparr>children = [firstDiv], divs = (\<lambda>d. []), nextDiv = Suc firstDiv, splitTopSeg = True,
      innerDiv = firstDiv, charLength = 0, firstSeg = True, cursorRendered = False,
      view = v\<lparr>viewportEndChar := Fin (- 1)\<rparr>\<rparr>"

text \<open>
  \<open>renderTree\<close> on the emptied viewport element: \<open>renderPass\<close> is the call with
  its variables at the end, and the page of the view that \<open>renderTree\<close> leaves is
  what the viewport element holds then.
\<close>

definition renderPass :: "Geometry \<Rightarrow> xnumber \<Rightarrow> FlowView \<Rightarrow> error + RenderPass" where
  "renderPass g start v =
     (case mapRange (renderSegment g) (client v) start (initialPass v) of
        Inl e \<Rightarrow> Inl e
      | Inr rp \<Rightarrow> Inr (placeCursor (endCharFallback g rp)))"

definition renderTree :: "Geometry \<Rightarrow> xnumber \<Rightarrow> FlowView \<Rightarrow> error + FlowView" where
  "renderTree g start v =
     (case renderPass g start v of
        Inl e \<Rightarrow> Inl e
      | Inr rp \<Rightarrow> Inr ((view rp)\<lparr>viewportDiv := dom rp\<rparr>))"

section \<open>FlowView.render and the render scheduler\<close>

text \<open>
  \<open>render(topChar?, changed = false)\<close>. The function has no \<open>return\<close> with a value:
  its result is \<open>undefined\<close>. \<open>startOffset\<close> is the value of the local \<open>pos\<close>,
  \<open>Math.floor((this.topChar / len) * len)\<close>, computed in doubles. \<open>layout\<close> is the
  function from \<open>let frac = this.topChar / len\<close> on: it empties the viewport element
  and calls \<open>renderTree\<close>. The scroll bar and the status messages it writes are not
  read by anything modelled here.
\<close>

definition startOffset :: "FlowView \<Rightarrow> xnumber" where
  "startOffset v =
     (let len = of_nat (getLength (client v));
          frac = js_div (topChar v) len
      in js_floor (js_mul frac (Fin len)))"

definition layout :: "Geometry \<Rightarrow> FlowView \<Rightarrow> error + jsvalue \<times> FlowView" where
  "layout g v =
     (case renderTree g (startOffset v) (v\<lparr>viewportDiv := []\<rparr>) of
        Inl e \<Rightarrow> Inl e
      | Inr v' \<Rightarrow> Inr (JSUndefined, v'))"

definition render ::
  "Geometry \<Rightarrow> number option \<Rightarrow> bool \<Rightarrow> FlowView \<Rightarrow> error + jsvalue \<times> FlowView" where
  "render g topCharArg changed v =
     (let len = of_nat (getLength (client v)) in
      case topCharArg of
        None \<Rightarrow> layout g v
      | Some t \<Rightarrow>
          if (topChar v = t \<or> (topChar v = 0 \<and> t \<le> 0)) \<and> \<not> changed then Inr (JSUndefined, v)
          else (let v1 = v\<lparr>topChar := t\<rparr>;
                    v2 = (if topChar v1 \<ge> len then v1\<lparr>topChar := len - charsPerLine v1\<rparr> else v1);
                    v3 = (if topChar v2 < 0 then v2\<lparr>topChar := 0\<rparr> else v2)
                in layout g v3))"


definition queueRender :: "ISequencedMessage option \<Rightarrow> FlowView \<Rightarrow> FlowView" where
  "queueRender msg v =
     (case msg of
        None \<Rightarrow> v
      | Some m \<Rightarrow>
          if \<not> pendingRender v \<and> op m \<noteq> None
          then v\<lparr>pendingRender := True, animationFrames := animationFrames v @ [RemoteRender m]\<rparr>
          else v)"

text \<open>The cursor update of the callback of \<open>queueRender\<close>, for the cursor position.\<close>

definition rebase :: "IMergeTreeOp \<Rightarrow> number \<Rightarrow> number" where
  "rebase delta cpos =
     (case delta of
        INSERT pos1 txt \<Rightarrow> if pos1 \<le> cpos then cpos + of_nat (length txt) else cpos
      | REMOVE pos1 pos2 \<Rightarrow>
          if pos2 \<le> cpos then cpos - (pos2 - pos1)
          else if cpos \<ge> pos1 then pos1 else cpos
      | OTHER \<Rightarrow> cpos)"

text \<open>
  The callback of \<open>queueRender\<close> up to its call of \<open>render\<close>: the view that layout is
  run on.
\<close>

definition remoteRebase :: "ISequencedMessage \<Rightarrow> FlowView \<Rightarrow> FlowView" where
  "remoteRebase msg v =
     (let v1 = v\<lparr>pendingRender := False\<rparr> in
      if clientId msg \<noteq> longClientId (client v1) then
        (case op msg of
           Some delta \<Rightarrow> setCursorPos (rebase delta (pos (cursor v1))) v1
         | None \<Rightarrow> v1)
      else v1)"

fun runCallback :: "Geometry \<Rightarrow> FrameCallback \<Rightarrow> FlowView \<Rightarrow> error + jsvalue \<times> FlowView" where
  "runCallback g LocalRender v =
     render g (Some (topChar v)) True (v\<lparr>pendingRender := False\<rparr>)"
| "runCallback g (RemoteRender msg) v =
     render g (Some (topChar v)) True (remoteRebase msg v)"









section \<open>A monospace host layout\<close>

text \<open>
  A layout to run the model on, for the one style the source sets on the viewport element,
  \<open>white-space: pre-wrap\<close>: every code unit is a glyph 8 wide and a row is 22 high. An
  inner element lays the text of its spans out in rows of \<open>cols\<close> glyphs. A row ends
  after a line feed. Otherwise it is filled up to the last break opportunity, after a
  space or a hyphen, that it has room for; the spaces that follow a full row hang on it;
  and a token without a break opportunity stays on one row, however long. An inner
  element is as high as its rows (an empty one has no height). The inner elements are
  stacked from the top left corner of the viewport element, which is at the origin,
  \<open>cols\<close> glyphs wide and \<open>h\<close> high. A hit test finds the glyph under the point;
  the text of a span is one text node, the first child of the span. The marker of the
  cursor is positioned absolutely: it takes no room in a row, and the \<open>innerText\<close> of
  the span that hosts it ends with the marker's character on a line of its own, two code
  units more than the text of the span.
\<close>

definition lineAt :: "DOM \<Rightarrow> nat \<Rightarrow> ISegSpan list" where
  "lineAt d i = (if i < length d then d ! i else [])"

definition lineText :: "ISegSpan list \<Rightarrow> string" where
  "lineText spans = concat (map innerText spans)"

definition lineChars :: "ISegSpan list \<Rightarrow> nat" where
  "lineChars spans = length (lineText spans)"

definition breakAfter :: "char \<Rightarrow> bool" where
  "breakAfter c \<longleftrightarrow> c = CHR '' '' \<or> c = CHR ''-'' \<or> c = CHR 0x0A"

text \<open>The glyphs at the head of a text that hang at the end of the row before it.\<close>

definition hanging :: "string \<Rightarrow> nat" where
  "hanging rest =
     (let spaces = length (takeWhile (\<lambda>c. c = CHR '' '') rest)
      in if spaces < length rest \<and> rest ! spaces = CHR 0x0A then Suc spaces else spaces)"

text \<open>
  The number of glyphs in the first row of a text: up to the first line feed, if the
  text before it fits; the whole text, if it fits; or else the content of the row and
  what hangs on it, where the content is the whole width when a space follows it, or ends
  at the last break opportunity in that width, or is the token that starts the row, with
  the hyphen that ends it.
\<close>

definition firstRow :: "nat \<Rightarrow> string \<Rightarrow> nat" where
  "firstRow cols txt =
     (let forced = length (takeWhile (\<lambda>c. c \<noteq> CHR 0x0A) (take (Suc cols) txt));
          soft = length (dropWhile (\<lambda>c. \<not> breakAfter c) (rev (take cols txt)));
          rest = drop cols txt;
          token = length (takeWhile (\<lambda>c. \<not> breakAfter c) rest);
          content =
            (if take 1 rest = [CHR '' ''] then cols
             else if soft > 0 then soft
             else if token < length rest \<and> rest ! token = CHR ''-'' then cols + Suc token
             else cols + token)
      in if forced < length (take (Suc cols) txt) then Suc forced
         else if length txt \<le> cols then length txt
         else content + hanging (drop content txt))"

function rowLengths :: "nat \<Rightarrow> string \<Rightarrow> nat list" where
  "rowLengths cols txt =
     (if txt = [] then []
      else max 1 (firstRow cols txt) # rowLengths cols (drop (max 1 (firstRow cols txt)) txt))"
  by pat_completeness auto

termination
  by (relation "measure (\<lambda>(cols, txt). length txt)") auto

declare rowLengths.simps [simp del]

definition rowsOf :: "nat \<Rightarrow> ISegSpan list \<Rightarrow> nat" where
  "rowsOf cols spans = length (rowLengths cols (lineText spans))"

definition rowsAbove :: "nat \<Rightarrow> DOM \<Rightarrow> nat \<Rightarrow> nat" where
  "rowsAbove cols d i = sum_list (map (rowsOf cols) (take i d))"

definition gridLineBounds :: "nat \<Rightarrow> DOM \<Rightarrow> nat \<Rightarrow> ClientRect" where
  "gridLineBounds cols d i =
     \<lparr>left = 0, top = of_nat (22 * rowsAbove cols d i), right = of_nat (8 * cols),
      bottom = of_nat (22 * (rowsAbove cols d i + rowsOf cols (lineAt d i)))\<rparr>"

text \<open>The glyphs of span \<open>j\<close> of a line are those from \<open>spanFrom\<close> up to \<open>spanTo\<close>.\<close>

definition spanFrom :: "ISegSpan list \<Rightarrow> nat \<Rightarrow> nat" where
  "spanFrom spans j = lineChars (take j spans)"

definition spanTo :: "ISegSpan list \<Rightarrow> nat \<Rightarrow> nat" where
  "spanTo spans j = lineChars (take (Suc j) spans)"

text \<open>
  For rows of the given lengths: the first glyph of row \<open>r\<close>, and the row that holds
  glyph \<open>k\<close> (the last row for the end of the text).
\<close>

definition rowStart :: "nat list \<Rightarrow> nat \<Rightarrow> nat" where
  "rowStart lens r = sum_list (take r lens)"

fun rowOfGlyph :: "nat list \<Rightarrow> nat \<Rightarrow> nat" where
  "rowOfGlyph [] k = 0"
| "rowOfGlyph [n] k = 0"
| "rowOfGlyph (n # m # lens) k = (if k < n then 0 else Suc (rowOfGlyph (m # lens) (k - n)))"

text \<open>The part of the glyphs from \<open>a\<close> up to \<open>b\<close> that lies in row \<open>r\<close>.\<close>

definition rowRect :: "nat list \<Rightarrow> nat \<Rightarrow> nat \<Rightarrow> nat \<Rightarrow> nat \<Rightarrow> ClientRect" where
  "rowRect lens up a b r =
     (let start = rowStart lens r; stop = rowStart lens (Suc r)
      in \<lparr>left = of_nat (8 * (max a start - start)),
          top = of_nat (22 * (up + r)),
          right = of_nat (8 * (max (max a start) (min b stop) - start)),
          bottom = of_nat (22 * (up + r + 1))\<rparr>)"

definition gridSpanClientRects :: "nat \<Rightarrow> DOM \<Rightarrow> nat \<Rightarrow> nat \<Rightarrow> ClientRect list" where
  "gridSpanClientRects cols d i j =
     (let lens = rowLengths cols (lineText (lineAt d i));
          a = spanFrom (lineAt d i) j; b = spanTo (lineAt d i) j
      in map (rowRect lens (rowsAbove cols d i) a b)
           [rowOfGlyph lens a ..< Suc (rowOfGlyph lens (b - 1))])"

text \<open>The bounds of a span: the smallest rectangle around its parts.\<close>

definition gridSpanBounds :: "nat \<Rightarrow> DOM \<Rightarrow> nat \<Rightarrow> nat \<Rightarrow> ClientRect" where
  "gridSpanBounds cols d i j =
     (let lens = rowLengths cols (lineText (lineAt d i));
          a = spanFrom (lineAt d i) j; b = spanTo (lineAt d i) j;
          up = rowsAbove cols d i;
          parts = map (rowRect lens up a b) [rowOfGlyph lens a ..< Suc (rowOfGlyph lens (b - 1))]
      in \<lparr>left = fold min (map left parts) (left (rowRect lens up a b (rowOfGlyph lens a))),
          top = of_nat (22 * (up + rowOfGlyph lens a)),
          right = fold max (map right parts) (right (rowRect lens up a b (rowOfGlyph lens a))),
          bottom = of_nat (22 * (up + max (rowOfGlyph lens a) (rowOfGlyph lens (b - 1)) + 1))\<rparr>)"

text \<open>The span of a line that holds glyph \<open>k\<close> (the last span for the end of the line).\<close>

fun spanOfGlyph :: "ISegSpan list \<Rightarrow> nat \<Rightarrow> nat \<Rightarrow> nat \<times> nat" where
  "spanOfGlyph [] j k = (j, k)"
| "spanOfGlyph [sp] j k = (j, k)"
| "spanOfGlyph (sp # sp' # spans) j k =
     (if k < length (innerText sp) then (j, k)
      else spanOfGlyph (sp' # spans) (Suc j) (k - length (innerText sp)))"

text \<open>
  The length of the \<open>innerText\<close> that the page gives for a span: that of its text,
  and two more when the span hosts the marker of the cursor.
\<close>

definition gridInnerTextLength :: "ISegSpan \<Rightarrow> nat" where
  "gridInnerTextLength sp = length (innerText sp) + (if hostsCursor sp then 2 else 0)"

text \<open>The line whose rows hold the row \<open>r\<close> of the viewport, from line \<open>i\<close> on.\<close>

fun lineOfRow :: "nat \<Rightarrow> DOM \<Rightarrow> nat \<Rightarrow> nat \<Rightarrow> (nat \<times> nat) option" where
  "lineOfRow cols [] i r = None"
| "lineOfRow cols (spans # d) i r =
     (if r < rowsOf cols spans then Some (i, r)
      else lineOfRow cols d (Suc i) (r - rowsOf cols spans))"

text \<open>
  The hit test: the glyph of the row under the point that is \<open>x\<close> from the left, or the
  last glyph of the row when the point is to the right of it (the end of the text in the
  last row).
\<close>

definition gridCaretRangeFromPoint ::
  "nat \<Rightarrow> DOM \<Rightarrow> nat \<Rightarrow> nat \<Rightarrow> number \<Rightarrow> number \<Rightarrow> IRangeInfo option" where
  "gridCaretRangeFromPoint cols d i j x y =
     (if x < 0 \<or> y < 0 then None
      else case lineOfRow cols d 0 (nat \<lfloor>y / 22\<rfloor>) of
             None \<Rightarrow> None
           | Some (i', r) \<Rightarrow>
               (let spans = lineAt d i';
                    lens = rowLengths cols (lineText spans);
                    stop = rowStart lens (Suc r);
                    k = min (rowStart lens r + nat \<lfloor>x / 8\<rfloor>)
                          (if Suc r < length lens then stop - 1 else stop);
                    (j', off) = spanOfGlyph spans 0 k
                in Some \<lparr>elmIsSpan = (i' = i \<and> j' = j),
                         nodePreviousSiblings = [],
                         elmPreviousSiblings =
                           rev (map (\<lambda>sp. ELEMENT_NODE (gridInnerTextLength sp)) (take j' spans)),
                         rangeOffset = off\<rparr>))"

definition gridGeometry :: "nat \<Rightarrow> nat \<Rightarrow> Geometry" where
  "gridGeometry cols h =
     \<lparr>divBounds = \<lparr>left = 0, top = 0, right = of_nat (8 * cols), bottom = of_nat h\<rparr>,
      lineBounds = gridLineBounds cols,
      spanBounds = gridSpanBounds cols,
      spanClientRects = gridSpanClientRects cols,
      caretRangeFromPoint = gridCaretRangeFromPoint cols,
      innerTextLength = gridInnerTextLength\<rparr>"

section \<open>Bursts of notifications, and what a render pass keeps\<close>

text \<open>The notifications of a burst, handed to \<open>queueRender\<close> in the order of arrival.\<close>

definition deliver :: "ISequencedMessage option list \<Rightarrow> FlowView \<Rightarrow> FlowView" where
  "deliver msgs v = foldl (\<lambda>s msg. queueRender msg s) v msgs"

text \<open>Two views agree on the top offset and on the sequence.\<close>

definition keeps :: "FlowView \<Rightarrow> FlowView \<Rightarrow> bool" where
  "keeps v v' \<longleftrightarrow> topChar v' = topChar v \<and> client v' = client v"

text \<open>
  Two passes agree on \<open>adjustedTopChar\<close> and on \<open>firstSeg\<close>. A pass knows its top
  offset when \<open>adjustedTopChar\<close> has a value or no text segment was visited yet.
\<close>

definition sameTop :: "RenderPass \<Rightarrow> RenderPass \<Rightarrow> bool" where
  "sameTop rp rp' \<longleftrightarrow>
     adjustedTopChar (view rp') = adjustedTopChar (view rp) \<and> firstSeg rp' = firstSeg rp"

definition topKnown :: "RenderPass \<Rightarrow> bool" where
  "topKnown rp \<longleftrightarrow> firstSeg rp \<or> adjustedTopChar (view rp) \<noteq> None"

section \<open>Example documents and views\<close>

definition segA :: TextSegment where
  "segA = \<lparr>segId = 1, segText = ''aaaa bbbb cccc dddd ''\<rparr>"

definition segB :: TextSegment where
  "segB = \<lparr>segId = 2, segText = ''eeee ffff gggg hhhh iiii jjjj ''\<rparr>"




text \<open>
  A view that has not rendered yet, on a document of the given segments, with the cursor
  at \<open>c\<close>; glyphs are estimated 8 wide, a line holds 10.
\<close>

definition freshView :: "Segment list \<Rightarrow> number \<Rightarrow> FlowView" where
  "freshView segs c =
     \<lparr>wEst = 8, viewportCharCount = 20, charsPerLine = 10, prevTopSegment = None,
      adjustedTopChar = None, viewportEndChar = NaN, viewportDiv = [],
      client = \<lparr>segments = segs, longClientId = ''me''\<rparr>,
      topChar = 0, cursor = \<lparr>pos = c, parentSpan = None\<rparr>, pendingRender = False,
      animationFrames = []\<rparr>"

definition exampleView :: "number \<Rightarrow> FlowView" where
  "exampleView c = freshView [TextSeg segA, TextSeg segB] c"

definition remoteInsert :: "number \<Rightarrow> string \<Rightarrow> ISequencedMessage" where
  "remoteInsert p txt = \<lparr>clientId = ''other'', op = Some (INSERT p txt)\<rparr>"

definition remoteRemove :: "number \<Rightarrow> number \<Rightarrow> ISequencedMessage" where
  "remoteRemove p q = \<lparr>clientId = ''other'', op = Some (REMOVE p q)\<rparr>"


section \<open>Properties of Historian.getCommits\<close>

text \<open>
  C10. For every sha and count, \<open>getCommits\<close> resolves with the empty array when the
  underlying REST request rejects with the number 400, and rejects with the original
  error for every other rejection value. (A request that resolves, or never settles, is
  passed through.)
\<close>

theorem getCommits_catch:
  "(restGet ''/commits''
      ([(''count'', QNumber count), (''sha'', QString sha)] @ generateCacheQueryString h now)
        = Rejected e \<longrightarrow>
      getCommits h restGet now sha count
        = (if e = JSNumber 400 then Resolved [] else Rejected e))
   \<and> ((\<forall>e'. restGet ''/commits''
      ([(''count'', QNumber count), (''sha'', QString sha)] @ generateCacheQueryString h now)
        \<noteq> Rejected e') \<longrightarrow>
      getCommits h restGet now sha count
        = restGet ''/commits''
            ([(''count'', QNumber count), (''sha'', QString sha)]
               @ generateCacheQueryString h now))"
  by (auto simp: getCommits_def split: promise.splits)

theorem getCommits_catch_witness:
  "getCommits \<lparr>endpoint = ''http://historian'', historianApi = True, disableCache = False\<rparr>
     (\<lambda>p q. Rejected (JSNumber 400)) 0 ''abc'' 10 = (Resolved [] :: nat list promise)
   \<and> getCommits \<lparr>endpoint = ''http://historian'', historianApi = True, disableCache = False\<rparr>
     (\<lambda>p q. Rejected (JSString ''400'')) 0 ''abc'' 10
       = (Rejected (JSString ''400'') :: nat list promise)"
  using getCommits_catch [of "\<lambda>p q. Rejected (JSNumber 400)" 10 "''abc''"
      "\<lparr>endpoint = ''http://historian'', historianApi = True, disableCache = False\<rparr>" 0
      "JSNumber 400"]
    getCommits_catch [of "\<lambda>p q. Rejected (JSString ''400'')" 10 "''abc''"
      "\<lparr>endpoint = ''http://historian'', historianApi = True, disableCache = False\<rparr>" 0
      "JSString ''400''"]
  by simp

section \<open>The cursor rebase\<close>

text \<open>
  C1. For every cursor position \<open>c\<close> and every remote insertion of \<open>n\<close> characters at
  offset \<open>p\<close> that the render job processes (a message of another client whose operation
  is an insertion), the cursor position after the rebase, with which the job then calls
  \<open>render\<close>, is \<open>c + n\<close> if \<open>p \<le> c\<close>, and \<open>c\<close> if \<open>p > c\<close>.
\<close>

theorem remote_insert_rebase:
  "clientId msg \<noteq> longClientId (client v) \<Longrightarrow> op msg = Some (INSERT p txt) \<Longrightarrow>
   pos (cursor (remoteRebase msg v)) =
     (if p \<le> pos (cursor v) then pos (cursor v) + of_nat (length txt) else pos (cursor v))
   \<and> runCallback g (RemoteRender msg) v = render g (Some (topChar v)) True (remoteRebase msg v)"
  by (simp add: remoteRebase_def rebase_def setCursorPos_def)

text \<open>The scenario of the spec: the cursor at 5 and an insertion of two characters at 0.\<close>

theorem remote_insert_rebase_witness:
  "pos (cursor (remoteRebase (remoteInsert 0 ''XX'') (exampleView 5))) = 7
   \<and> pos (cursor (remoteRebase (remoteInsert 6 ''XX'') (exampleView 5))) = 5"
  using remote_insert_rebase [of "remoteInsert 0 ''XX''" "exampleView 5" 0 "''XX''"]
    remote_insert_rebase [of "remoteInsert 6 ''XX''" "exampleView 5" 6 "''XX''"]
  by (simp add: remoteInsert_def exampleView_def freshView_def)

text \<open>
  C2. For every cursor position \<open>c\<close> and every remote removal of the range from \<open>p\<close>
  to \<open>q\<close> that the render job processes, the cursor position after the rebase is
  \<open>c - (q - p)\<close> if \<open>q \<le> c\<close>; otherwise it is \<open>p\<close> if \<open>c \<ge> p\<close>; otherwise it is
  unchanged.
\<close>

theorem remote_remove_rebase:
  "clientId msg \<noteq> longClientId (client v) \<Longrightarrow> op msg = Some (REMOVE p q) \<Longrightarrow>
   pos (cursor (remoteRebase msg v)) =
     (if q \<le> pos (cursor v) then pos (cursor v) - (q - p)
      else if pos (cursor v) \<ge> p then p else pos (cursor v))
   \<and> runCallback g (RemoteRender msg) v = render g (Some (topChar v)) True (remoteRebase msg v)"
  by (simp add: remoteRebase_def rebase_def setCursorPos_def)

text \<open>The scenario of the spec: the cursor at 5 and the removal of the range from 3 to 8.\<close>

theorem remote_remove_rebase_witness:
  "pos (cursor (remoteRebase (remoteRemove 3 8) (exampleView 5))) = 3
   \<and> pos (cursor (remoteRebase (remoteRemove 1 3) (exampleView 5))) = 3
   \<and> pos (cursor (remoteRebase (remoteRemove 6 8) (exampleView 5))) = 5"
  using remote_remove_rebase [of "remoteRemove 3 8" "exampleView 5" 3 8]
    remote_remove_rebase [of "remoteRemove 1 3" "exampleView 5" 1 3]
    remote_remove_rebase [of "remoteRemove 6 8" "exampleView 5" 6 8]
  by (simp add: remoteRemove_def exampleView_def freshView_def)

section \<open>The range of the cursor\<close>




section \<open>Coalescing of notifications\<close>

lemma queueRender_pending: "pendingRender v \<Longrightarrow> queueRender msg v = v"
  by (simp add: queueRender_def split: option.splits)

lemma deliver_pending: "pendingRender v \<Longrightarrow> deliver msgs v = v"
  by (induction msgs) (simp_all add: deliver_def queueRender_pending)

text \<open>
  C4, as amended. When no render job is pending and a notification with an operation
  arrives, followed by any further notifications before the job runs, exactly one job is
  queued, for the first notification; the others change nothing. When the job runs it
  rebases the cursor against the operation of that first notification only (if it is
  remote), and then calls \<open>render\<close>.
\<close>

theorem burst_queues_first_only:
  "\<not> pendingRender v \<Longrightarrow> op m \<noteq> None \<Longrightarrow>
   deliver (Some m # msgs) v
     = v\<lparr>pendingRender := True, animationFrames := animationFrames v @ [RemoteRender m]\<rparr>
   \<and> runCallback g (RemoteRender m) (deliver (Some m # msgs) v)
     = render g (Some (topChar v)) True (remoteRebase m (deliver (Some m # msgs) v))
   \<and> pos (cursor (remoteRebase m (deliver (Some m # msgs) v)))
     = (if clientId m \<noteq> longClientId (client v)
        then rebase (the (op m)) (pos (cursor v)) else pos (cursor v))"
proof -
  assume a: "\<not> pendingRender v" "op m \<noteq> None"
  let ?v1 = "v\<lparr>pendingRender := True, animationFrames := animationFrames v @ [RemoteRender m]\<rparr>"
  have q: "queueRender (Some m) v = ?v1" using a by (simp add: queueRender_def)
  have "deliver (Some m # msgs) v = deliver msgs ?v1" by (simp add: deliver_def q)
  also have "\<dots> = ?v1" by (rule deliver_pending) simp
  finally have d: "deliver (Some m # msgs) v = ?v1" .
  show ?thesis using a by (auto simp: d remoteRebase_def setCursorPos_def)
qed

theorem burst_queues_first_only_witness:
  "animationFrames (deliver [Some (remoteInsert 0 ''X''), Some (remoteInsert 0 ''Y'')] (exampleView 5))
     = [RemoteRender (remoteInsert 0 ''X'')]
   \<and> pos (cursor (remoteRebase (remoteInsert 0 ''X'')
        (deliver [Some (remoteInsert 0 ''X''), Some (remoteInsert 0 ''Y'')] (exampleView 5)))) = 6"
  using burst_queues_first_only [of "exampleView 5" "remoteInsert 0 ''X''" "[Some (remoteInsert 0 ''Y'')]"]
  by (simp add: exampleView_def freshView_def remoteInsert_def rebase_def deliver_def queueRender_def
      remoteRebase_def setCursorPos_def)

text \<open>
  The claim as stated fails: two remote insertions of one character at 0 arrive with the
  cursor at 5. One job is queued; layout runs with the cursor at 6, and rebasing against
  both operations in order gives 7.
\<close>

theorem burst_partial_rebase:
  "animationFrames (deliver [Some (remoteInsert 0 ''X''), Some (remoteInsert 0 ''Y'')] (exampleView 5))
     = [RemoteRender (remoteInsert 0 ''X'')]
   \<and> pos (cursor (remoteRebase (remoteInsert 0 ''X'')
        (deliver [Some (remoteInsert 0 ''X''), Some (remoteInsert 0 ''Y'')] (exampleView 5)))) = 6
   \<and> rebase (INSERT 0 ''Y'') (rebase (INSERT 0 ''X'') 5) = 7"
  by (simp add: deliver_def queueRender_def exampleView_def freshView_def remoteInsert_def remoteRebase_def
      rebase_def setCursorPos_def)

section \<open>Where trimming cuts\<close>




















section \<open>What a render pass keeps\<close>

lemma keeps_refl: "keeps v v"
  by (simp add: keeps_def)

lemma keeps_trans: "keeps a b \<Longrightarrow> keeps b c \<Longrightarrow> keeps a c"
  by (simp add: keeps_def)

lemma view_appendChild: "view (appendChild d sp rp) = view rp"
  by (simp add: appendChild_def)

lemma view_freshDiv: "view (freshDiv rp) = view rp"
  by (simp add: freshDiv_def)

lemma keeps_assign: "keeps (view rp) (view (assign d j rp))"
  by (simp add: assign_def keeps_def Let_def)

lemma topChar_assign: "topChar (view (assign d j rp)) = topChar (view rp)"
  by (simp add: assign_def Let_def)

lemma client_assign: "client (view (assign d j rp)) = client (view rp)"
  by (simp add: assign_def Let_def)

lemma keeps_setCursorPos: "keeps v (setCursorPos c v)"
  by (simp add: setCursorPos_def keeps_def)

lemma keeps_segmentToSpan: "keeps (view rp) (view (segmentToSpan t ts off sc rc rp))"
  by (simp add: segmentToSpan_def keeps_def Let_def topChar_assign client_assign view_appendChild)

lemma view_renderFirstSegment:
  "renderFirstSegment g txt ts sp start rp = (t, so, r) \<Longrightarrow> view r = view rp"
  by (auto simp: renderFirstSegment_def Let_def segmentToSpan_def view_appendChild)

lemma keeps_topSegment:
  "topSegment g ts sp start rp = (t, so, r) \<Longrightarrow> keeps (view rp) (view r)"
  by (auto simp: topSegment_def Let_def setAdjustedTopChar_def setCursorPos_def keeps_def
      split: prod.splits if_splits dest!: view_renderFirstSegment)

lemma view_pruneLoop:
  "pruneLoop g c k rp lp = (rp', lp') \<Longrightarrow> view rp' = view rp"
  by (induction k arbitrary: rp lp) (auto split: if_splits)

lemma keeps_clipSpan:
  "clipSpan g c w sp li i rp ls lo = Inr (rp', ls', lo') \<Longrightarrow> keeps (view rp) (view rp')"
  by (auto simp: clipSpan_def Let_def keeps_refl keeps_segmentToSpan
      split: prod.splits if_splits option.splits)

lemma keeps_reinsertLoop:
  "reinsertLoop g c w lp i rp ls lo = Inr (rp', ls', lo') \<Longrightarrow> keeps (view rp) (view rp')"
proof (induction g c w lp i rp ls lo rule: reinsertLoop.induct)
  case (1 g c w lp i rp ls lo)
  show ?case
  proof (cases "i < length (divs rp lp) \<and> bottom (spanBounds g (dom rp) (indexOf (children rp) lp) i) \<le> c")
    case True
    let ?rp1 = "appendChild (innerDiv rp) (divs rp lp ! i)
                   (rp\<lparr>divs := (divs rp) (lp := take i (divs rp lp) @ drop (Suc i) (divs rp lp))\<rparr>)"
    from True "1.prems" have "reinsertLoop g c w lp (Suc i) ?rp1
         (Some (seg (divs rp lp ! i))) (length (segText (seg (divs rp lp ! i)))) = Inr (rp', ls', lo')"
      by (subst (asm) reinsertLoop.simps) (simp add: Let_def)
    with True "1.IH" have "keeps (view ?rp1) (view rp')" by (simp add: Let_def)
    then show ?thesis by (simp add: view_appendChild)
  next
    case False
    from False "1.prems" show ?thesis
      by (subst (asm) reinsertLoop.simps)
         (auto simp: Let_def keeps_refl dest: keeps_clipSpan split: if_splits)
  qed
qed

lemma keeps_prune:
  "prune g c w rp = Inr (go, rp') \<Longrightarrow> keeps (view rp) (view rp')"
  unfolding prune_def Let_def
  by (auto split: if_splits prod.splits option.splits sum.splits
      dest!: view_pruneLoop keeps_reinsertLoop simp: view_freshDiv keeps_def)

lemma keeps_placeText: "keeps (view rp) (view (placeText g ts sp start rp))"
proof -
  define rp1 where "rp1 = (if firstSeg rp \<and> prevTopSegment (view rp) \<noteq> Some (segId ts)
                      then rp\<lparr>splitTopSeg := False,
                              view := (view rp)\<lparr>prevTopSegment := Some (segId ts)\<rparr>\<rparr>
                      else rp)"
  have k1: "keeps (view rp) (view rp1)" by (simp add: rp1_def keeps_def)
  obtain t so rp2 where top: "(if start > 0 then topSegment g ts sp start rp1
                  else (segText ts, 0,
                        if firstSeg rp1
                        then setAdjustedTopChar (topChar (view rp1)) rp1 else rp1)) = (t, so, rp2)"
    by (metis prod_cases3)
  have k2: "keeps (view rp1) (view rp2)"
    using top by (auto split: if_splits dest: keeps_topSegment simp: setAdjustedTopChar_def keeps_def)
  define rp3 where "rp3 = rp2\<lparr>firstSeg := False, charLength := charLength rp2 + length t\<rparr>"
  have k5: "keeps (view rp2) (view (segmentToSpan t ts (of_nat so) sp True rp3))"
    using keeps_segmentToSpan [of rp3 t ts "of_nat so" sp True] by (simp add: rp3_def)
  have "placeText g ts sp start rp =
      (if charAt t (length t - 1) = [CHR 0x0A] \<and> t \<noteq> []
       then freshDiv (segmentToSpan t ts (of_nat so) sp True rp3)
       else segmentToSpan t ts (of_nat so) sp True rp3)"
    unfolding placeText_def Let_def rp1_def[symmetric] top rp3_def by simp
  then have "view (placeText g ts sp start rp) = view (segmentToSpan t ts (of_nat so) sp True rp3)"
    by (simp add: view_freshDiv)
  then show ?thesis using k1 k2 k5 by (simp add: keeps_def)
qed

lemma keeps_overflowCheck:
  "overflowCheck g isLast rp = Inr (go, rp') \<Longrightarrow> keeps (view rp) (view rp')"
  by (auto simp: overflowCheck_def Let_def keeps_refl split: if_splits dest: keeps_prune)

lemma keeps_renderSegment:
  "renderSegment g s sp start end rp = Inr (go, rp') \<Longrightarrow> keeps (view rp) (view rp')"
  using keeps_placeText keeps_overflowCheck keeps_trans
  by (cases s) (fastforce simp: renderSegment_def keeps_refl)+

lemma keeps_nodeMap:
  "nodeMap (renderSegment g) segs sp start end rp = Inr rp' \<Longrightarrow> keeps (view rp) (view rp')"
proof (induction segs arbitrary: sp start "end" rp)
  case Nil
  then show ?case by (simp add: keeps_refl)
next
  case (Cons s segs)
  show ?case
  proof (cases "end > 0 \<and> rat_of_nat (cachedLength s) > 0 \<and> start < rat_of_nat (cachedLength s)")
    case False
    with Cons.prems have "nodeMap (renderSegment g) segs (sp + of_nat (cachedLength s))
        (start - of_nat (cachedLength s)) (end - of_nat (cachedLength s)) rp = Inr rp'"
      by (auto simp: Let_def)
    then show ?thesis by (rule Cons.IH)
  next
    case True
    with Cons.prems obtain go rp1 where l: "renderSegment g s sp start end rp = Inr (go, rp1)"
      and rest: "(if go then nodeMap (renderSegment g) segs (sp + of_nat (cachedLength s))
        (start - of_nat (cachedLength s)) (end - of_nat (cachedLength s)) rp1 else Inr rp1) = Inr rp'"
      by (auto simp: Let_def split: sum.splits prod.splits)
    have k1: "keeps (view rp) (view rp1)" using l by (rule keeps_renderSegment)
    have "keeps (view rp1) (view rp')"
      using rest Cons.IH by (auto split: if_splits simp: keeps_refl)
    with k1 show ?thesis using keeps_trans by blast
  qed
qed

lemma keeps_endCharFallback: "keeps (view rp) (view (endCharFallback g rp))"
  by (simp add: endCharFallback_def keeps_def Let_def)

lemma keeps_placeCursor: "keeps (view rp) (view (placeCursor rp))"
  by (auto simp: placeCursor_def keeps_def Let_def setCursorPos_def topChar_assign client_assign
      split: list.splits)

lemma keeps_renderTree: "renderTree g start v = Inr v' \<Longrightarrow> keeps v v'"
proof -
  assume r: "renderTree g start v = Inr v'"
  then obtain rp where p: "renderPass g start v = Inr rp" and v': "v' = (view rp)\<lparr>viewportDiv := dom rp\<rparr>"
    by (auto simp: renderTree_def split: sum.splits)
  from p obtain rp0 where m: "mapRange (renderSegment g) (client v) start (initialPass v) = Inr rp0"
    and rp: "rp = placeCursor (endCharFallback g rp0)"
    by (auto simp: renderPass_def split: sum.splits)
  have "keeps (view (initialPass v)) (view rp0)"
    using m by (auto simp: mapRange_def keeps_refl split: xnumber.splits dest: keeps_nodeMap)
  then have "keeps v (view rp0)" by (simp add: initialPass_def keeps_def)
  then have "keeps v (view rp)"
    using rp keeps_endCharFallback keeps_placeCursor keeps_trans by blast
  then show ?thesis by (simp add: v' keeps_def)
qed

lemma keeps_layout: "layout g v = Inr (r, v') \<Longrightarrow> keeps v v' \<and> r = JSUndefined"
  by (auto simp: layout_def Let_def keeps_def split: sum.splits dest!: keeps_renderTree)

section \<open>The placement of the cursor\<close>

text \<open>
  C5. After a layout pass in which no span claimed the cursor, or whose
  \<open>viewportEndChar\<close> is below the cursor's offset, the cursor is to be rebound to the
  first rendered character of the page. The code rebinds it to the first span of
  \<open>firstDiv\<close>, the first inner element of the pass, and the pruning step may have taken
  that element off the page. A paragraph of two segments, of 20 and 30 characters, in a
  viewport of two rows of 10, with the cursor at the end of the document (50): the
  paragraph is pruned and its first span is put back on the page, so the page starts at
  offset 0 and \<open>viewportEndChar\<close> is 20. The cursor exceeds it and is rebound to the
  span left in \<open>firstDiv\<close>, which is off the page: its position becomes 20, not 0.
\<close>

theorem pruned_first_line_rebinds_elsewhere:
  "render (gridGeometry 10 44) (Some 0) True (exampleView 50)
     = Inr (JSUndefined, (exampleView 50)
         \<lparr>prevTopSegment := Some 1, adjustedTopChar := Some 0, viewportEndChar := Fin 20,
          viewportDiv := [[makeSegSpan (segText segA) segA 0 0]],
          cursor := \<lparr>pos = 20, parentSpan =
            Some ((makeSegSpan (segText segB) segB 0 20)\<lparr>hostsCursor := True\<rparr>)\<rparr>\<rparr>)"
  by code_simp

section \<open>The fallback for the end of the viewport\<close>

lemma sameTop_refl: "sameTop rp rp"
  by (simp add: sameTop_def)

lemma sameTop_trans: "sameTop a b \<Longrightarrow> sameTop b c \<Longrightarrow> sameTop a c"
  by (simp add: sameTop_def)

lemma sameTop_segmentToSpan: "sameTop rp (segmentToSpan t ts off sc rc rp)"
  by (simp add: segmentToSpan_def sameTop_def Let_def assign_def appendChild_def)

lemma sameTop_freshDiv: "sameTop rp (freshDiv rp)"
  by (simp add: sameTop_def freshDiv_def)

lemma sameTop_pruneLoop:
  "pruneLoop g c k rp lp = (rp', lp') \<Longrightarrow> sameTop rp rp'"
  by (induction k arbitrary: rp lp) (auto simp: sameTop_def split: if_splits)

lemma sameTop_clipSpan:
  "clipSpan g c w sp li i rp ls lo = Inr (rp', ls', lo') \<Longrightarrow> sameTop rp rp'"
  by (auto simp: clipSpan_def Let_def sameTop_refl sameTop_segmentToSpan
      split: prod.splits if_splits option.splits)

lemma sameTop_reinsertLoop:
  "reinsertLoop g c w lp i rp ls lo = Inr (rp', ls', lo') \<Longrightarrow> sameTop rp rp'"
proof (induction g c w lp i rp ls lo rule: reinsertLoop.induct)
  case (1 g c w lp i rp ls lo)
  show ?case
  proof (cases "i < length (divs rp lp) \<and> bottom (spanBounds g (dom rp) (indexOf (children rp) lp) i) \<le> c")
    case True
    let ?rp1 = "appendChild (innerDiv rp) (divs rp lp ! i)
                   (rp\<lparr>divs := (divs rp) (lp := take i (divs rp lp) @ drop (Suc i) (divs rp lp))\<rparr>)"
    from True "1.prems" have "reinsertLoop g c w lp (Suc i) ?rp1
         (Some (seg (divs rp lp ! i))) (length (segText (seg (divs rp lp ! i)))) = Inr (rp', ls', lo')"
      by (subst (asm) reinsertLoop.simps) (simp add: Let_def)
    with True "1.IH" have "sameTop ?rp1 rp'" by (simp add: Let_def)
    then show ?thesis by (simp add: sameTop_def appendChild_def)
  next
    case False
    from False "1.prems" show ?thesis
      by (subst (asm) reinsertLoop.simps)
         (auto simp: Let_def sameTop_refl dest: sameTop_clipSpan split: if_splits)
  qed
qed

lemma sameTop_prune:
  "prune g c w rp = Inr (go, rp') \<Longrightarrow> sameTop rp rp'"
  unfolding prune_def Let_def
  by (auto split: if_splits prod.splits option.splits sum.splits
      dest!: sameTop_pruneLoop sameTop_reinsertLoop simp: sameTop_def freshDiv_def)

lemma sameTop_overflowCheck:
  "overflowCheck g isLast rp = Inr (go, rp') \<Longrightarrow> sameTop rp rp'"
  by (auto simp: overflowCheck_def Let_def sameTop_refl split: if_splits dest: sameTop_prune)

lemma top_topSegment:
  "topSegment g ts sp start rp = (t, so, r) \<Longrightarrow> adjustedTopChar (view r) \<noteq> None"
  by (auto simp: topSegment_def Let_def setAdjustedTopChar_def setCursorPos_def
      split: prod.splits if_splits)

lemma topKnown_placeText:
  "topKnown rp \<Longrightarrow>
   \<not> firstSeg (placeText g ts sp start rp) \<and> topKnown (placeText g ts sp start rp)"
proof -
  assume known: "topKnown rp"
  define rp1 where "rp1 = (if firstSeg rp \<and> prevTopSegment (view rp) \<noteq> Some (segId ts)
                      then rp\<lparr>splitTopSeg := False,
                              view := (view rp)\<lparr>prevTopSegment := Some (segId ts)\<rparr>\<rparr>
                      else rp)"
  have k1: "topKnown rp1" using known by (simp add: rp1_def topKnown_def)
  obtain t so rp2 where top: "(if start > 0 then topSegment g ts sp start rp1
                  else (segText ts, 0,
                        if firstSeg rp1
                        then setAdjustedTopChar (topChar (view rp1)) rp1 else rp1)) = (t, so, rp2)"
    by (metis prod_cases3)
  have k2: "adjustedTopChar (view rp2) \<noteq> None"
    using top k1
    by (auto split: if_splits dest: top_topSegment simp: setAdjustedTopChar_def topKnown_def)
  define rp3 where "rp3 = rp2\<lparr>firstSeg := False, charLength := charLength rp2 + length t\<rparr>"
  have k3: "sameTop rp3 (segmentToSpan t ts (of_nat so) sp True rp3)"
    by (rule sameTop_segmentToSpan)
  have "placeText g ts sp start rp =
      (if charAt t (length t - 1) = [CHR 0x0A] \<and> t \<noteq> []
       then freshDiv (segmentToSpan t ts (of_nat so) sp True rp3)
       else segmentToSpan t ts (of_nat so) sp True rp3)"
    unfolding placeText_def Let_def rp1_def[symmetric] top rp3_def by simp
  then have "sameTop rp3 (placeText g ts sp start rp)"
    using k3 sameTop_freshDiv sameTop_trans by (auto split: if_splits)
  then show ?thesis using k2 by (simp add: sameTop_def topKnown_def rp3_def)
qed

lemma topKnown_renderSegment:
  "renderSegment g s sp start end rp = Inr (go, rp') \<Longrightarrow> topKnown rp \<Longrightarrow>
   topKnown rp' \<and> (firstSeg rp' \<longrightarrow> firstSeg rp)"
proof (cases s)
  case (TextSeg ts)
  assume r: "renderSegment g s sp start end rp = Inr (go, rp')" and k: "topKnown rp"
  from r TextSeg have "sameTop (placeText g ts sp start rp) rp'"
    by (auto simp: renderSegment_def dest: sameTop_overflowCheck)
  with topKnown_placeText [OF k, of g ts sp start] show ?thesis
    by (auto simp: sameTop_def topKnown_def)
next
  case (MarkerSeg i n)
  assume "renderSegment g s sp start end rp = Inr (go, rp')" and "topKnown rp"
  with MarkerSeg show ?thesis by (simp add: renderSegment_def)
qed

lemma topKnown_nodeMap:
  "nodeMap (renderSegment g) segs sp start end rp = Inr rp' \<Longrightarrow> topKnown rp \<Longrightarrow> topKnown rp'"
proof (induction segs arbitrary: sp start "end" rp)
  case Nil
  then show ?case by simp
next
  case (Cons s segs)
  show ?case
  proof (cases "end > 0 \<and> rat_of_nat (cachedLength s) > 0 \<and> start < rat_of_nat (cachedLength s)")
    case False
    with Cons.prems have "nodeMap (renderSegment g) segs (sp + of_nat (cachedLength s))
        (start - of_nat (cachedLength s)) (end - of_nat (cachedLength s)) rp = Inr rp'"
      by (auto simp: Let_def)
    then show ?thesis using Cons.prems(2) by (rule Cons.IH)
  next
    case True
    with Cons.prems obtain go rp1 where l: "renderSegment g s sp start end rp = Inr (go, rp1)"
      and rest: "(if go then nodeMap (renderSegment g) segs (sp + of_nat (cachedLength s))
        (start - of_nat (cachedLength s)) (end - of_nat (cachedLength s)) rp1 else Inr rp1) = Inr rp'"
      by (auto simp: Let_def split: sum.splits prod.splits)
    have k1: "topKnown rp1" using topKnown_renderSegment [OF l Cons.prems(2)] by simp
    show ?thesis
      using rest Cons.IH k1 by (auto split: if_splits)
  qed
qed

lemma topKnown_traversal:
  "mapRange (renderSegment g) (client v) start (initialPass v) = Inr rp \<Longrightarrow> topKnown rp"
  by (auto simp: mapRange_def topKnown_def initialPass_def split: xnumber.splits
      dest!: topKnown_nodeMap)

lemma findLastChar_empty:
  "\<forall>d \<in> set (children rp). divs rp d = [] \<Longrightarrow> findLastChar g rp = - 1"
proof -
  assume a: "\<forall>d \<in> set (children rp). divs rp d = []"
  show ?thesis
  proof (cases "children rp = []")
    case True then show ?thesis by (simp add: findLastChar_def)
  next
    case False
    then have l: "divs rp (last (children rp)) = []" using a by simp
    show ?thesis
    proof (cases "length (children rp) \<ge> 2")
      case True
      then have "children rp ! (length (children rp) - 2) \<in> set (children rp)" by simp
      then have "divs rp (children rp ! (length (children rp) - 2)) = []" using a by blast
      with True False l show ?thesis by (simp add: findLastChar_def Let_def)
    next
      case False
      with \<open>children rp \<noteq> []\<close> l show ?thesis by (simp add: findLastChar_def Let_def)
    qed
  qed
qed

lemma dom_placeCursor:
  "\<forall>d \<in> set (children rp). divs rp d = [] \<Longrightarrow> dom (placeCursor rp) = dom rp"
proof -
  assume a: "\<forall>d \<in> set (children rp). divs rp d = []"
  show ?thesis
  proof (cases "divs rp firstDiv")
    case Nil
    then show ?thesis by (simp add: placeCursor_def)
  next
    case (Cons firstSpan spans)
    then have "firstDiv \<notin> set (children rp)" using a by auto
    then show ?thesis
      using a by (auto simp: placeCursor_def dom_def assign_def Let_def split: list.splits)
  qed
qed

lemma end_placeCursor: "viewportEndChar (view (placeCursor rp)) = viewportEndChar (view rp)"
  by (auto simp: placeCursor_def assign_def Let_def setCursorPos_def split: list.splits)

text \<open>
  C7, as amended. If the traversal of a render pass returns having visited a text
  segment, without a \<open>viewportEndChar\<close> set and with no span in the inner elements of
  the page (as in a viewport without height), then the pass raises no failure, the page
  keeps its empty inner elements, and \<open>viewportEndChar\<close> is set to \<open>adjustedTopChar\<close>
  plus the number of characters accumulated (\<open>charLength\<close>), where \<open>adjustedTopChar\<close>
  is the top offset as the traversal adjusted it.
\<close>

theorem fallback_end_char:
  "mapRange (renderSegment g) (client v) start (initialPass v) = Inr rp \<Longrightarrow> \<not> firstSeg rp \<Longrightarrow>
   js_lt (viewportEndChar (view rp)) 0 \<Longrightarrow> \<forall>d \<in> set (children rp). divs rp d = [] \<Longrightarrow>
   \<exists>a rp'. adjustedTopChar (view rp) = Some a
     \<and> renderPass g start v = Inr rp'
     \<and> viewportEndChar (view rp') = Fin (of_nat (charLength rp) + a)
     \<and> dom rp' = dom rp \<and> (\<forall>l \<in> set (dom rp'). l = [])
     \<and> renderTree g start v = Inr ((view rp')\<lparr>viewportDiv := dom rp'\<rparr>)"
proof -
  assume m: "mapRange (renderSegment g) (client v) start (initialPass v) = Inr rp"
    and visited: "\<not> firstSeg rp"
    and unset: "js_lt (viewportEndChar (view rp)) 0"
    and empty: "\<forall>d \<in> set (children rp). divs rp d = []"
  from topKnown_traversal [OF m] visited obtain a where a: "adjustedTopChar (view rp) = Some a"
    by (auto simp: topKnown_def)
  let ?rp1 = "endCharFallback g rp"
  have f: "findLastChar g rp = - 1" using empty by (rule findLastChar_empty)
  have rp1: "?rp1 = rp\<lparr>view := (view rp)\<lparr>viewportEndChar := Fin (of_nat (charLength rp) + a)\<rparr>\<rparr>"
    using unset by (simp add: endCharFallback_def Let_def f a)
  then have empty1: "\<forall>d \<in> set (children ?rp1). divs ?rp1 d = []" using empty by simp
  have pass: "renderPass g start v = Inr (placeCursor ?rp1)"
    by (simp add: renderPass_def m)
  have e: "viewportEndChar (view (placeCursor ?rp1)) = Fin (of_nat (charLength rp) + a)"
    by (simp add: end_placeCursor rp1)
  have d: "dom (placeCursor ?rp1) = dom rp"
    using dom_placeCursor [OF empty1] by (simp add: rp1 dom_def)
  have l: "\<forall>l \<in> set (dom (placeCursor ?rp1)). l = []"
    unfolding d using empty by (auto simp: dom_def)
  have t: "renderTree g start v
      = Inr ((view (placeCursor ?rp1))\<lparr>viewportDiv := dom (placeCursor ?rp1)\<rparr>)"
    by (simp add: renderTree_def pass)
  from a pass e d l t show ?thesis by blast
qed


text \<open>
  A viewport of height 0 on the example document, rendered from offset 30: the traversal
  visits the second segment, which starts at 20, whole, and prunes it.
\<close>

lemma zero_height_traversal:
  "(case mapRange (renderSegment (gridGeometry 10 0)) (client ((exampleView 5)\<lparr>topChar := 30\<rparr>))
           (Fin 30) (initialPass ((exampleView 5)\<lparr>topChar := 30\<rparr>)) of
      Inr rp \<Rightarrow> \<not> firstSeg rp \<and> js_lt (viewportEndChar (view rp)) 0
        \<and> children rp = [1] \<and> divs rp 1 = []
        \<and> adjustedTopChar (view rp) = Some 20 \<and> charLength rp = 30
    | Inl e \<Rightarrow> False)"
  by code_simp

theorem fallback_end_char_witness:
  "\<exists>rp. mapRange (renderSegment (gridGeometry 10 0)) (client ((exampleView 5)\<lparr>topChar := 30\<rparr>))
           (Fin 30) (initialPass ((exampleView 5)\<lparr>topChar := 30\<rparr>)) = Inr rp
     \<and> \<not> firstSeg rp \<and> js_lt (viewportEndChar (view rp)) 0
     \<and> children rp = [1] \<and> divs rp 1 = []
     \<and> adjustedTopChar (view rp) = Some 20 \<and> charLength rp = 30
     \<and> (\<exists>rp'. renderPass (gridGeometry 10 0) (Fin 30) ((exampleView 5)\<lparr>topChar := 30\<rparr>) = Inr rp'
           \<and> viewportEndChar (view rp') = Fin 50 \<and> dom rp' = [[]])"
proof -
  let ?g = "gridGeometry 10 0"
  let ?v = "(exampleView 5)\<lparr>topChar := 30\<rparr>"
  from zero_height_traversal obtain rp
    where m: "mapRange (renderSegment ?g) (client ?v) (Fin 30) (initialPass ?v) = Inr rp"
      and visited: "\<not> firstSeg rp" and unset: "js_lt (viewportEndChar (view rp)) 0"
      and c: "children rp = [1]" and d: "divs rp 1 = []"
      and a: "adjustedTopChar (view rp) = Some 20" and n: "charLength rp = 30"
    by (cases "mapRange (renderSegment ?g) (client ?v) (Fin 30) (initialPass ?v)") auto
  have empty: "\<forall>d \<in> set (children rp). divs rp d = []" unfolding c using d by simp
  from fallback_end_char [OF m visited unset empty] obtain a' rp'
    where "adjustedTopChar (view rp) = Some a'"
      and pass: "renderPass ?g (Fin 30) ?v = Inr rp'"
      and e: "viewportEndChar (view rp') = Fin (of_nat (charLength rp) + a')"
      and p: "dom rp' = dom rp"
    by blast
  with a n have e50: "viewportEndChar (view rp') = Fin 50" by simp
  have "dom rp = [[]]" unfolding dom_def c using d by simp
  then have "dom rp' = [[]]" using p by simp
  then show ?thesis using e50 m visited unset c d a n pass by blast
qed

text \<open>
  The claim as stated fails: in a viewport of height 0, with \<open>topChar\<close> 30 in a document
  of 50 characters, the page is empty, 30 characters were accumulated and
  \<open>viewportEndChar\<close> is 50: neither \<open>topChar\<close> nor \<open>topChar\<close> plus the characters
  accumulated.
\<close>

theorem zero_height_end_char:
  "render (gridGeometry 10 0) (Some 30) False (exampleView 5)
     = Inr (JSUndefined, (exampleView 5)
         \<lparr>prevTopSegment := Some 2, adjustedTopChar := Some 20, viewportEndChar := Fin 50,
          viewportDiv := [[]], topChar := 30,
          cursor := \<lparr>pos = 20, parentSpan =
            Some ((makeSegSpan (segText segB) segB 0 20)\<lparr>hostsCursor := True\<rparr>)\<rparr>\<rparr>)"
  by code_simp

section \<open>Rendering twice\<close>

text \<open>
  C8, as amended. For every \<open>topChar\<close> below the length of the sequence, a call
  \<open>render(topChar)\<close> that returns leaves the view such that a second call
  \<open>render(topChar)\<close>, with no mutation in between, returns at once and changes
  nothing: the page and the viewport state stay as the first call left them.
\<close>

theorem render_again_returns_early:
  "t < of_nat (getLength (client v)) \<Longrightarrow> render g (Some t) False v = Inr (r, v') \<Longrightarrow>
   render g (Some t) False v' = Inr (JSUndefined, v')"
proof -
  assume lt: "t < of_nat (getLength (client v))" and r: "render g (Some t) False v = Inr (r, v')"
  show ?thesis
  proof (cases "topChar v = t \<or> (topChar v = 0 \<and> t \<le> 0)")
    case True
    with r have "v' = v" by (simp add: render_def)
    with True show ?thesis by (simp add: render_def)
  next
    case False
    let ?v3 = "if t < 0 then v\<lparr>topChar := 0\<rparr> else v\<lparr>topChar := t\<rparr>"
    from False lt r have "layout g ?v3 = Inr (r, v')"
      by (auto simp: render_def Let_def split: if_splits)
    then have "keeps ?v3 v'" using keeps_layout by blast
    then have "topChar v' = (if t < 0 then 0 else t)" by (auto simp: keeps_def split: if_splits)
    then show ?thesis by (auto simp: render_def split: if_splits)
  qed
qed

lemma in_range_render:
  "(case render (gridGeometry 10 220) (Some 30) False (exampleView 5) of
      Inr (r, v) \<Rightarrow> topChar v = 30 \<and> prevTopSegment v = Some 2
    | Inl e \<Rightarrow> False)"
  by code_simp

theorem render_again_returns_early_witness:
  "(30 :: number) < of_nat (getLength (client (exampleView 5)))
   \<and> (\<exists>r v'. render (gridGeometry 10 220) (Some 30) False (exampleView 5) = Inr (r, v')
         \<and> topChar v' = 30
         \<and> render (gridGeometry 10 220) (Some 30) False v' = Inr (JSUndefined, v'))"
proof -
  have l: "(30 :: number) < of_nat (getLength (client (exampleView 5)))"
    by (simp add: exampleView_def freshView_def getLength_def segA_def segB_def)
  from in_range_render obtain r v'
    where e: "render (gridGeometry 10 220) (Some 30) False (exampleView 5) = Inr (r, v')"
      and t: "topChar v' = 30"
    by (auto split: sum.splits)
  have "render (gridGeometry 10 220) (Some 30) False v' = Inr (JSUndefined, v')"
    using render_again_returns_early [OF l e] .
  with l e t show ?thesis by blast
qed

text \<open>
  The claim as stated fails for a \<open>topChar\<close> that is not below the length:
  \<open>render(100)\<close> on a document of 50 characters sets \<open>topChar\<close> to 40, inside the
  second segment, and renders that segment whole, since it is a new top segment. The
  second \<open>render(100)\<close> does not return at once; the top segment is the previous one,
  so the pass splits it, and the page, \<open>adjustedTopChar\<close>, \<open>viewportEndChar\<close> and the
  cursor change.
\<close>

theorem render_twice_differs:
  "render (gridGeometry 10 220) (Some 100) False (exampleView 5)
     = Inr (JSUndefined, (exampleView 5)
         \<lparr>prevTopSegment := Some 2, adjustedTopChar := Some 20, viewportEndChar := Fin 51,
          viewportDiv :=
            [[(makeSegSpan (segText segB) segB 0 20)\<lparr>hostsCursor := True\<rparr>], []],
          topChar := 40,
          cursor := \<lparr>pos = 20, parentSpan =
            Some ((makeSegSpan (segText segB) segB 0 20)\<lparr>hostsCursor := True\<rparr>)\<rparr>\<rparr>)
   \<and> render (gridGeometry 10 220) (Some 100) False ((exampleView 5)
         \<lparr>prevTopSegment := Some 2, adjustedTopChar := Some 20, viewportEndChar := Fin 51,
          viewportDiv :=
            [[(makeSegSpan (segText segB) segB 0 20)\<lparr>hostsCursor := True\<rparr>], []],
          topChar := 40,
          cursor := \<lparr>pos = 20, parentSpan =
            Some ((makeSegSpan (segText segB) segB 0 20)\<lparr>hostsCursor := True\<rparr>)\<rparr>\<rparr>)
     = Inr (JSUndefined, (exampleView 5)
         \<lparr>prevTopSegment := Some 2, adjustedTopChar := Some 30, viewportEndChar := Fin 41,
          viewportDiv :=
            [[(makeSegSpan ''gggg hhhh iiii jjjj '' segB 10 20)\<lparr>hostsCursor := True\<rparr>], []],
          topChar := 40,
          cursor := \<lparr>pos = 30, parentSpan =
            Some ((makeSegSpan ''gggg hhhh iiii jjjj '' segB 10 20)\<lparr>hostsCursor := True\<rparr>)\<rparr>\<rparr>)"
  by code_simp

section \<open>The result of render\<close>

lemma layout_fresh: "layout g (v\<lparr>viewportEndChar := e, viewportDiv := d\<rparr>) = layout g v"
  by (simp add: layout_def renderTree_def renderPass_def initialPass_def startOffset_def)

lemma layout_pass:
  "layout g v = Inr (r, v') \<Longrightarrow>
   \<exists>rp. renderPass g (startOffset v) (v\<lparr>viewportDiv := []\<rparr>) = Inr rp
     \<and> v' = (view rp)\<lparr>viewportDiv := dom rp\<rparr>"
  by (auto simp: layout_def renderTree_def split: sum.splits)

text \<open>
  C9, as amended. Every call of \<open>render\<close> that returns has the result
  \<open>undefined\<close>. A call with the \<open>topChar\<close> the view has (or with one not above 0
  while the view's is 0) and without \<open>forceLayout\<close> returns at once and changes
  nothing. Every other call with a \<open>topChar\<close> stores it in the view, replaced by the
  length less \<open>charsPerLine\<close> when it is not below the length, and then by 0 when it is
  below 0, and lays the page out; a call without a \<open>topChar\<close> lays the page out for the
  one the view has. A layout that returns has run a render pass on the emptied page from
  the start offset \<open>floor((topChar / length) * length)\<close>, computed in doubles, and
  leaves the view of that pass, with its \<open>viewportEndChar\<close>, and the inner elements of
  that pass as the page. Neither depends on the \<open>viewportEndChar\<close> or the page that
  the view had before.
\<close>

theorem render_returns_undefined:
  "(render g t changed v = Inr (r, v') \<longrightarrow> r = JSUndefined)
   \<and> (t = Some x \<and> (topChar v = x \<or> (topChar v = 0 \<and> x \<le> 0)) \<and> \<not> changed \<longrightarrow>
        render g t changed v = Inr (JSUndefined, v))
   \<and> (t = Some x \<and> \<not> ((topChar v = x \<or> (topChar v = 0 \<and> x \<le> 0)) \<and> \<not> changed) \<longrightarrow>
        render g t changed v
          = layout g (v\<lparr>topChar :=
              (if of_nat (getLength (client v)) \<le> x
               then (if of_nat (getLength (client v)) - charsPerLine v < 0 then 0
                     else of_nat (getLength (client v)) - charsPerLine v)
               else (if x < 0 then 0 else x))\<rparr>))
   \<and> (t = None \<longrightarrow> render g t changed v = layout g v)
   \<and> (layout g v = Inr (r, v') \<longrightarrow>
        (\<exists>rp. renderPass g (startOffset v) (v\<lparr>viewportDiv := []\<rparr>) = Inr rp
           \<and> v' = (view rp)\<lparr>viewportDiv := dom rp\<rparr>))
   \<and> layout g (v\<lparr>viewportEndChar := e, viewportDiv := d\<rparr>) = layout g v"
proof -
  have a: "render g t changed v = Inr (r, v') \<longrightarrow> r = JSUndefined"
    by (auto simp: render_def Let_def split: option.splits if_splits dest: keeps_layout)
  have b: "t = Some x \<and> (topChar v = x \<or> (topChar v = 0 \<and> x \<le> 0)) \<and> \<not> changed \<longrightarrow>
        render g t changed v = Inr (JSUndefined, v)"
    by (auto simp: render_def)
  have c: "t = Some x \<and> \<not> ((topChar v = x \<or> (topChar v = 0 \<and> x \<le> 0)) \<and> \<not> changed) \<longrightarrow>
        render g t changed v
          = layout g (v\<lparr>topChar :=
              (if of_nat (getLength (client v)) \<le> x
               then (if of_nat (getLength (client v)) - charsPerLine v < 0 then 0
                     else of_nat (getLength (client v)) - charsPerLine v)
               else (if x < 0 then 0 else x))\<rparr>)"
    by (auto simp: render_def Let_def)
  have d: "t = None \<longrightarrow> render g t changed v = layout g v"
    by (simp add: render_def)
  from a b c d layout_pass [of g v r v'] layout_fresh [where g = g and v = v and e = e and d = d]
  show ?thesis by blast
qed

text \<open>
  On the example document, of 50 characters: a forced render from 0, the same call without
  \<open>forceLayout\<close>, and a render from 29, whose start offset is 28.
\<close>

lemma forced_render:
  "(case render (gridGeometry 10 220) (Some 0) True (exampleView 5) of
      Inr (r, v) \<Rightarrow> viewportEndChar v = Fin 49
    | Inl e \<Rightarrow> False)"
  by code_simp

lemma start_offset_example:
  "startOffset ((exampleView 5)\<lparr>topChar := 29\<rparr>) = Fin 28
   \<and> getLength (client (exampleView 5)) = 50 \<and> topChar (exampleView 5) = 0"
  by code_simp

theorem render_returns_undefined_witness:
  "(\<exists>v'. render (gridGeometry 10 220) (Some 0) True (exampleView 5) = Inr (JSUndefined, v')
         \<and> viewportEndChar v' = Fin 49
         \<and> layout (gridGeometry 10 220) (exampleView 5) = Inr (JSUndefined, v')
         \<and> (\<exists>rp. renderPass (gridGeometry 10 220) (startOffset (exampleView 5))
                    ((exampleView 5)\<lparr>viewportDiv := []\<rparr>) = Inr rp
                \<and> v' = (view rp)\<lparr>viewportDiv := dom rp\<rparr>))
   \<and> render (gridGeometry 10 220) (Some 0) False (exampleView 5)
       = Inr (JSUndefined, exampleView 5)
   \<and> render (gridGeometry 10 220) (Some 29) False (exampleView 5)
       = layout (gridGeometry 10 220) ((exampleView 5)\<lparr>topChar := 29\<rparr>)
   \<and> startOffset ((exampleView 5)\<lparr>topChar := 29\<rparr>) = Fin 28
   \<and> render (gridGeometry 10 220) None False (exampleView 5)
       = layout (gridGeometry 10 220) (exampleView 5)"
proof -
  let ?g = "gridGeometry 10 220"
  let ?v = "exampleView 5"
  from start_offset_example have len: "getLength (client ?v) = 50" and top: "topChar ?v = 0"
    and start: "startOffset (?v\<lparr>topChar := 29\<rparr>) = Fin 28"
    by simp_all
  from forced_render obtain r v'
    where run: "render ?g (Some 0) True ?v = Inr (r, v')" and f: "viewportEndChar v' = Fin 49"
    by (cases "render ?g (Some 0) True ?v") auto
  have undef: "r = JSUndefined"
    using render_returns_undefined [of ?g "Some 0" True ?v r v'] run by blast
  have "render ?g (Some 0) True ?v = layout ?g (?v\<lparr>topChar := 0\<rparr>)"
    using render_returns_undefined [of ?g "Some 0" True ?v _ _ 0] by (simp add: len)
  moreover have "?v\<lparr>topChar := 0\<rparr> = ?v" using top by simp
  ultimately have lay: "layout ?g ?v = Inr (JSUndefined, v')" using run undef by simp
  have pass: "\<exists>rp. renderPass ?g (startOffset ?v) (?v\<lparr>viewportDiv := []\<rparr>) = Inr rp
      \<and> v' = (view rp)\<lparr>viewportDiv := dom rp\<rparr>"
    using render_returns_undefined [of ?g _ _ ?v JSUndefined v'] lay by blast
  have early: "render ?g (Some 0) False ?v = Inr (JSUndefined, ?v)"
    using render_returns_undefined [of ?g "Some 0" False ?v _ _ 0] top by simp
  have other: "render ?g (Some 29) False ?v = layout ?g (?v\<lparr>topChar := 29\<rparr>)"
    using render_returns_undefined [of ?g "Some 29" False ?v _ _ 29] by (simp add: len top)
  have none: "render ?g None False ?v = layout ?g ?v"
    using render_returns_undefined [of ?g None False ?v] by simp
  from run undef f lay pass early other start none show ?thesis by blast
qed

text \<open>
  The claim as stated fails: a forced render of the example document computes the
  bottom-of-view offset 49, and its result is \<open>undefined\<close>, not that number.
\<close>

theorem render_result_is_not_end_char:
  "render (gridGeometry 10 220) (Some 0) True (exampleView 5)
     = Inr (JSUndefined, (exampleView 5)
         \<lparr>prevTopSegment := Some 1, adjustedTopChar := Some 0, viewportEndChar := Fin 49,
          viewportDiv :=
            [[makeSegSpan ''aaaa '' segA 0 0,
              (makeSegSpan ''bbbb cccc dddd '' segA 5 0)\<lparr>hostsCursor := True\<rparr>,
              makeSegSpan (segText segB) segB 0 20], []],
          cursor := \<lparr>pos = 5, parentSpan =
            Some ((makeSegSpan ''bbbb cccc dddd '' segA 5 0)\<lparr>hostsCursor := True\<rparr>)\<rparr>\<rparr>)
   \<and> JSUndefined \<noteq> JSNumber 49"
  by code_simp

end
